theory Spec2Isabelle
  imports Main "HOL-Library.AList"
begin

section \<open>Data model\<close>

text \<open>
  Go pointers are addresses into typed stores. A pointer that the code compares with
  \<open>nil\<close> (\<open>Context.parent\<close>) is an optional address, and every Go map, whose zero value
  is the nil map, is optional too: \<open>None\<close> is \<open>nil\<close>. Method receivers and the other
  pointer arguments are plain addresses: the calls modelled are calls on objects that
  exist.

  The contents of a Go map are an association list: \<open>map_of\<close> reads it, \<open>AList.update\<close> is
  the assignment \<open>m[k] = v\<close>, and the order of the list is the order in which a \<open>range\<close>
  loop visits the entries. The runtime picks that order: the theorems below hold for every
  order, and an example names the order it takes.
\<close>

type_synonym ref = nat

text \<open>
  Modelled from the spec: the type \<open>exec.Value\<close> is not among the sources. The spec lists
  what the renderer observes of it: \<open>IsError\<close>, \<open>IsNil\<close>, \<open>IsTrue\<close>, \<open>IsString\<close>, the
  \<open>Safe\<close> flag, \<open>Escaped()\<close> and \<open>String()\<close>.
\<close>

record Value =
  IsError :: bool
  IsNil :: bool
  IsTrue :: bool
  IsString :: bool
  Safe :: bool
  Escaped :: string
  String :: string

text \<open>
  Errors keep the format string and the arguments of the call that built them
  (\<open>errors.Wrap\<close>, \<open>errors.Wrapf\<close>, \<open>errors.Errorf\<close>, \<open>fmt.Errorf\<close>). \<open>ValueError\<close> is a
  \<open>*Value\<close> used as an \<open>error\<close>; \<open>Failure\<close> is an error made by a collaborator.
\<close>

datatype error =
    ValueError Value
  | Failure string
  | Wrap error string
  | Wrapf error string "arg list"
  | Errorf string "arg list"
and arg =
    AInt int
  | AStr string
  | AErr error
  | ALoader ref

text \<open>A run-time panic is not a returned error: it is the left summand of a result.\<close>

datatype panic = NilMapAssign

text \<open>
  The \<open>interface{}\<close> values of a scope frame: \<open>nil\<close>, a macro closure (\<open>exec.Macro\<close>),
  the table \<open>map[string]exec.Macro\<close> that an import binds, or anything else.
\<close>

datatype ('m, 'a) ival =
    INil
  | IMacro 'm
  | IMacros "(string \<times> 'm) list"
  | IData 'a

record Context =
  data :: "ref option"
  parent :: "ref option"

text \<open>
  Modelled from the spec: package \<open>config\<close> is not among the sources. The spec describes a
  cloneable settings object exposing at least the flag \<open>AutoEscape\<close>, the only setting the
  renderer reads.
\<close>

record Config =
  AutoEscape :: bool

record Environment =
  Filters :: "ref option"
  Statements :: "ref option"
  Tests :: "ref option"
  Context :: ref

record Renderer =
  Config :: ref
  Environment :: ref
  Loader :: ref
  Template :: ref
  RootNode :: ref
  Output :: ref

text \<open>
  The store: one heap per kind of object with its allocation counter. \<open>maps\<close> holds the
  map objects behind \<open>Context.data\<close>, \<open>outs\<close> the contents of the \<open>strings.Builder\<close> sinks.
\<close>

record ('m, 'a) store =
  ctxs :: "ref \<Rightarrow> Context"
  next_ctx :: ref
  maps :: "ref \<Rightarrow> (string \<times> ('m, 'a) ival) list"
  next_map :: ref
  cfgs :: "ref \<Rightarrow> Config"
  next_cfg :: ref
  envs :: "ref \<Rightarrow> Environment"
  next_env :: ref
  outs :: "ref \<Rightarrow> string"

text \<open>
  The collaborators that the sources call and do not define, taken as parameters. They
  read the store and return values; none of them writes the store.
  \<^item> \<open>Eval\<close>: \<open>Renderer.Eval\<close>, which hands the node to \<open>Evaluator.Eval\<close>;
  \<^item> \<open>Line\<close>, \<open>Text\<close>: \<open>Position().Line\<close> and the \<open>%s\<close> form of an expression node;
  \<^item> \<open>Self\<close>: the wrapper \<open>Self(r)\<close>; \<open>root\<close>: the field \<open>template.root\<close>;
  \<^item> \<open>Loader_Inherit\<close>: \<open>r.Loader.Inherit(filename)\<close>;
  \<^item> \<open>NewTemplate\<close>: \<open>exec.NewTemplate(filename, config, loader, environment)\<close>;
  \<^item> \<open>Macros\<close>: \<open>template.Macros()\<close>, a map from names to \<open>*nodes.Macro\<close> (\<open>None\<close> is the
    nil pointer);
  \<^item> \<open>MacroNodeToFunc\<close>: \<open>exec.MacroNodeToFunc(node, r)\<close>;
  \<^item> \<open>Statement\<close>: the type assertion \<open>n.Stmt.(Statement)\<close>, giving the statement's
    \<open>Execute\<close> when it holds; \<open>StmtLine\<close>, \<open>StmtText\<close>: its line and \<open>%s\<close> form.
\<close>

record ('e, 'n, 'st, 'm, 'a) deps =
  Eval :: "('m, 'a) store \<Rightarrow> Renderer \<Rightarrow> 'e \<Rightarrow> Value"
  Line :: "'e \<Rightarrow> int"
  Text :: "'e \<Rightarrow> string"
  Self :: "Renderer \<Rightarrow> ('m, 'a) ival"
  root :: "ref \<Rightarrow> ref"
  Loader_Inherit :: "ref \<Rightarrow> string \<Rightarrow> error + ref"
  NewTemplate :: "('m, 'a) store \<Rightarrow> string \<Rightarrow> ref \<Rightarrow> ref \<Rightarrow> ref \<Rightarrow> error + ref"
  Macros :: "ref \<Rightarrow> (string \<times> 'n option) list"
  MacroNodeToFunc :: "('m, 'a) store \<Rightarrow> 'n option \<Rightarrow> Renderer \<Rightarrow> error + 'm"
  Statement :: "'st \<Rightarrow> (('m, 'a) store \<Rightarrow> Renderer \<Rightarrow> panic + ('m, 'a) store \<times> error option) option"
  StmtLine :: "'st \<Rightarrow> int"
  StmtText :: "'st \<Rightarrow> string"

section \<open>Go maps\<close>

text \<open>\<open>v, ok := m[k]\<close>: a nil map reads like an empty one.\<close>

definition index :: "(string \<times> 'v) list option \<Rightarrow> string \<Rightarrow> 'v option" where
  "index m k = (case m of None \<Rightarrow> None | Some al \<Rightarrow> map_of al k)"

text \<open>\<open>m[k] = v\<close>: assignment to an entry in a nil map panics.\<close>

definition assign :: "(string \<times> 'v) list option \<Rightarrow> string \<Rightarrow> 'v \<Rightarrow> panic + (string \<times> 'v) list option" where
  "assign m k v = (case m of None \<Rightarrow> Inl NilMapAssign | Some al \<Rightarrow> Inr (Some (AList.update k v al)))"

text \<open>The entries a \<open>range\<close> loop visits; none for a nil map.\<close>

definition entries :: "(string \<times> 'v) list option \<Rightarrow> (string \<times> 'v) list" where
  "entries m = (case m of None \<Rightarrow> [] | Some al \<Rightarrow> al)"

section \<open>Context (renderer.go, second part)\<close>

text \<open>The map object \<open>ctx.data\<close> as a value, and \<open>ctx.data[name] = value\<close> in the store.\<close>

definition frame :: "('m, 'a) store \<Rightarrow> ref \<Rightarrow> (string \<times> ('m, 'a) ival) list option" where
  "frame s ctx = map_option (maps s) (data (ctxs s ctx))"

definition frame_assign :: "('m, 'a) store \<Rightarrow> ref \<Rightarrow> string \<Rightarrow> ('m, 'a) ival \<Rightarrow> panic + ('m, 'a) store" where
  "frame_assign s ctx name v =
     (case data (ctxs s ctx) of
        None \<Rightarrow> Inl NilMapAssign
      | Some m \<Rightarrow> Inr (s\<lparr>maps := (maps s)(m := AList.update name v (maps s m))\<rparr>))"

definition NewContext :: "('m, 'a) store \<Rightarrow> ref option \<Rightarrow> ref \<times> ('m, 'a) store" where
  "NewContext s d =
     (next_ctx s,
      s\<lparr>ctxs := (ctxs s)(next_ctx s := \<lparr>data = d, parent = None\<rparr>),
        next_ctx := Suc (next_ctx s)\<rparr>)"

definition EmptyContext :: "('m, 'a) store \<Rightarrow> ref \<times> ('m, 'a) store" where
  "EmptyContext s =
     (next_ctx s,
      s\<lparr>maps := (maps s)(next_map s := []),
        next_map := Suc (next_map s),
        ctxs := (ctxs s)(next_ctx s := \<lparr>data = Some (next_map s), parent = None\<rparr>),
        next_ctx := Suc (next_ctx s)\<rparr>)"

text \<open>
  \<open>Has\<close> and \<open>Get\<close> recurse along \<open>parent\<close>. Nothing in the type of a store keeps that
  chain finite, so both are partial: \<open>None\<close> is a call that does not return.
\<close>

partial_function (option) Context_Has :: "('m, 'a) store \<Rightarrow> ref \<Rightarrow> string \<Rightarrow> bool option" where
  "Context_Has s ctx name =
     (case index (frame s ctx) name of
        Some value \<Rightarrow> Some True
      | None \<Rightarrow>
          (case parent (ctxs s ctx) of
             Some p \<Rightarrow> Context_Has s p name
           | None \<Rightarrow> Some False))"

partial_function (option) Context_Get :: "('m, 'a) store \<Rightarrow> ref \<Rightarrow> string \<Rightarrow> (('m, 'a) ival \<times> bool) option" where
  "Context_Get s ctx name =
     (case index (frame s ctx) name of
        Some value \<Rightarrow> Some (value, True)
      | None \<Rightarrow>
          (case parent (ctxs s ctx) of
             Some p \<Rightarrow> Context_Get s p name
           | None \<Rightarrow> Some (INil, False)))"

definition Context_Set :: "('m, 'a) store \<Rightarrow> ref \<Rightarrow> string \<Rightarrow> ('m, 'a) ival \<Rightarrow> panic + ('m, 'a) store" where
  "Context_Set s ctx name v = frame_assign s ctx name v"

definition Context_Inherit :: "('m, 'a) store \<Rightarrow> ref \<Rightarrow> ref \<times> ('m, 'a) store" where
  "Context_Inherit s ctx =
     (next_ctx s,
      s\<lparr>maps := (maps s)(next_map s := []),
        next_map := Suc (next_map s),
        ctxs := (ctxs s)(next_ctx s := \<lparr>data = Some (next_map s), parent = Some ctx\<rparr>),
        next_ctx := Suc (next_ctx s)\<rparr>)"

text \<open>The loop \<open>for k, v := range other.data { ctx.data[k] = v }\<close> over the entries left.\<close>

fun Update_range :: "('m, 'a) store \<Rightarrow> ref \<Rightarrow> (string \<times> ('m, 'a) ival) list \<Rightarrow> panic + ('m, 'a) store" where
  "Update_range s ctx [] = Inr s"
| "Update_range s ctx ((k, v) # kvs) =
     (case frame_assign s ctx k v of
        Inl p \<Rightarrow> Inl p
      | Inr s' \<Rightarrow> Update_range s' ctx kvs)"

definition Context_Update :: "('m, 'a) store \<Rightarrow> ref \<Rightarrow> ref \<Rightarrow> panic + ref \<times> ('m, 'a) store" where
  "Context_Update s ctx other =
     (case Update_range s ctx (entries (frame s other)) of
        Inl p \<Rightarrow> Inl p
      | Inr s' \<Rightarrow> Inr (ctx, s'))"

text \<open>
  The ancestors of a context, nearest first, when the chain of \<open>parent\<close> pointers ends:
  \<open>chain s c ps\<close> says that \<open>ps\<close> are exactly the frames above \<open>c\<close>, up to the root.
\<close>

primrec chain :: "('m, 'a) store \<Rightarrow> ref \<Rightarrow> ref list \<Rightarrow> bool" where
  "chain s c [] = (parent (ctxs s c) = None)"
| "chain s c (p # ps) = (parent (ctxs s c) = Some p \<and> chain s p ps)"

text \<open>
  The lookup as the specification words it: the frames are checked in order, the local
  one first, and the first match is the result.
\<close>

fun first_match :: "(string \<times> 'v) list option list \<Rightarrow> string \<Rightarrow> 'v option" where
  "first_match [] name = None"
| "first_match (f # fs) name =
     (case index f name of Some v \<Rightarrow> Some v | None \<Rightarrow> first_match fs name)"

text \<open>
  A well-formed store: every allocated context was created after its parent, and its
  map, when it has one, is allocated. \<open>NewContext\<close> (on an allocated map), \<open>EmptyContext\<close>,
  \<open>Inherit\<close>, \<open>Set\<close> and \<open>Update\<close> keep a store well-formed.
\<close>

definition wf_store :: "('m, 'a) store \<Rightarrow> bool" where
  "wf_store s =
     (\<forall>c < next_ctx s.
        (\<forall>p. parent (ctxs s c) = Some p \<longrightarrow> p < c) \<and>
        (\<forall>m. data (ctxs s c) = Some m \<longrightarrow> m < next_map s))"

text \<open>
  \<open>frame_only s s' ctx\<close>: the store \<open>s'\<close> is \<open>s\<close> except, at most, for the contents of the
  map of the context \<open>ctx\<close>.
\<close>

definition frame_only :: "('m, 'a) store \<Rightarrow> ('m, 'a) store \<Rightarrow> ref \<Rightarrow> bool" where
  "frame_only s s' ctx =
     (ctxs s' = ctxs s \<and> next_ctx s' = next_ctx s \<and> next_map s' = next_map s
      \<and> cfgs s' = cfgs s \<and> next_cfg s' = next_cfg s
      \<and> envs s' = envs s \<and> next_env s' = next_env s \<and> outs s' = outs s
      \<and> (case data (ctxs s ctx) of
            None \<Rightarrow> maps s' = maps s
          | Some m \<Rightarrow> maps s' = (maps s)(m := maps s' m)))"

section \<open>Registries (environment.go)\<close>

type_synonym 'f FilterSet = "(string \<times> 'f) list option"
type_synonym 'f StatementSet = "(string \<times> 'f) list option"
type_synonym 'f TestSet = "(string \<times> 'f) list option"

text \<open>The loop \<open>for name, x := range other { (*fs)[name] = x }\<close> over the entries left.\<close>

fun range_assign :: "(string \<times> 'v) list option \<Rightarrow> (string \<times> 'v) list \<Rightarrow> panic + (string \<times> 'v) list option" where
  "range_assign m [] = Inr m"
| "range_assign m ((k, v) # kvs) =
     (case assign m k v of
        Inl p \<Rightarrow> Inl p
      | Inr m' \<Rightarrow> range_assign m' kvs)"

definition FilterSet_Exists :: "'f FilterSet \<Rightarrow> string \<Rightarrow> bool" where
  "FilterSet_Exists fs name = (index fs name \<noteq> None)"

definition FilterSet_Register :: "'f FilterSet \<Rightarrow> string \<Rightarrow> 'f \<Rightarrow> panic + 'f FilterSet \<times> error option" where
  "FilterSet_Register fs name fn =
     (if FilterSet_Exists fs name
      then Inr (fs, Some (Errorf ''filter with name '%s' is already registered'' [AStr name]))
      else (case assign fs name fn of
              Inl p \<Rightarrow> Inl p
            | Inr fs' \<Rightarrow> Inr (fs', None)))"

definition FilterSet_Replace :: "'f FilterSet \<Rightarrow> string \<Rightarrow> 'f \<Rightarrow> panic + 'f FilterSet \<times> error option" where
  "FilterSet_Replace fs name fn =
     (if \<not> FilterSet_Exists fs name
      then Inr (fs, Some (Errorf ''filter with name '%s' does not exist (therefore cannot be overridden)'' [AStr name]))
      else (case assign fs name fn of
              Inl p \<Rightarrow> Inl p
            | Inr fs' \<Rightarrow> Inr (fs', None)))"

definition FilterSet_Update :: "'f FilterSet \<Rightarrow> 'f FilterSet \<Rightarrow> panic + 'f FilterSet" where
  "FilterSet_Update fs other = range_assign fs (entries other)"

definition StatementSet_Exists :: "'f StatementSet \<Rightarrow> string \<Rightarrow> bool" where
  "StatementSet_Exists ss name = (index ss name \<noteq> None)"

definition StatementSet_Register :: "'f StatementSet \<Rightarrow> string \<Rightarrow> 'f \<Rightarrow> panic + 'f StatementSet \<times> error option" where
  "StatementSet_Register ss name parser =
     (if StatementSet_Exists ss name
      then Inr (ss, Some (Errorf ''Statement '%s' is already registered'' [AStr name]))
      else (case assign ss name parser of
              Inl p \<Rightarrow> Inl p
            | Inr ss' \<Rightarrow> Inr (ss', None)))"

definition StatementSet_Replace :: "'f StatementSet \<Rightarrow> string \<Rightarrow> 'f \<Rightarrow> panic + 'f StatementSet \<times> error option" where
  "StatementSet_Replace ss name parser =
     (if \<not> StatementSet_Exists ss name
      then Inr (ss, Some (Errorf ''Statement '%s' does not exist (therefore cannot be overridden)'' [AStr name]))
      else (case assign ss name parser of
              Inl p \<Rightarrow> Inl p
            | Inr ss' \<Rightarrow> Inr (ss', None)))"

definition StatementSet_Update :: "'f StatementSet \<Rightarrow> 'f StatementSet \<Rightarrow> panic + 'f StatementSet" where
  "StatementSet_Update ss other = range_assign ss (entries other)"

definition TestSet_Exists :: "'f TestSet \<Rightarrow> string \<Rightarrow> bool" where
  "TestSet_Exists ts name = (index ts name \<noteq> None)"

definition TestSet_Register :: "'f TestSet \<Rightarrow> string \<Rightarrow> 'f \<Rightarrow> panic + 'f TestSet \<times> error option" where
  "TestSet_Register ts name fn =
     (if TestSet_Exists ts name
      then Inr (ts, Some (Errorf ''test with name '%s' is already registered'' [AStr name]))
      else (case assign ts name fn of
              Inl p \<Rightarrow> Inl p
            | Inr ts' \<Rightarrow> Inr (ts', None)))"

definition TestSet_Replace :: "'f TestSet \<Rightarrow> string \<Rightarrow> 'f \<Rightarrow> panic + 'f TestSet \<times> error option" where
  "TestSet_Replace ts name fn =
     (if \<not> TestSet_Exists ts name
      then Inr (ts, Some (Errorf ''test with name '%s' does not exist (therefore cannot be overridden)'' [AStr name]))
      else (case assign ts name fn of
              Inl p \<Rightarrow> Inl p
            | Inr ts' \<Rightarrow> Inr (ts', None)))"

definition TestSet_Update :: "'f TestSet \<Rightarrow> 'f TestSet \<Rightarrow> panic + 'f TestSet" where
  "TestSet_Update ts other = range_assign ts (entries other)"

section \<open>Renderer (renderer.go, first part)\<close>

text \<open>
  Modelled from the spec: \<open>Config.Inherit\<close> is not among the sources. The spec calls it a
  deep-copy operation: a new configuration object with the settings of the receiver.
\<close>

definition Config_Inherit :: "('m, 'a) store \<Rightarrow> ref \<Rightarrow> ref \<times> ('m, 'a) store" where
  "Config_Inherit s cfg =
     (next_cfg s,
      s\<lparr>cfgs := (cfgs s)(next_cfg s := cfgs s cfg), next_cfg := Suc (next_cfg s)\<rparr>)"

definition NewRenderer ::
  "('e, 'n, 'st, 'm, 'a) deps \<Rightarrow> ('m, 'a) store \<Rightarrow> ref \<Rightarrow> ref \<Rightarrow> ref \<Rightarrow> ref \<Rightarrow> ref \<Rightarrow> panic + Renderer \<times> ('m, 'a) store" where
  "NewRenderer d s environment output config loader template =
     (case Config_Inherit s config of
        (cfg, s1) \<Rightarrow>
          (let r = \<lparr>Config = cfg, Environment = environment, Loader = loader,
                    Template = template, RootNode = root d template, Output = output\<rparr>
           in case Context_Set s1 (Context (envs s1 (Environment r))) ''self'' (Self d r) of
                Inl p \<Rightarrow> Inl p
              | Inr s2 \<Rightarrow> Inr (r, s2)))"

definition Renderer_Inherit :: "('m, 'a) store \<Rightarrow> Renderer \<Rightarrow> Renderer \<times> ('m, 'a) store" where
  "Renderer_Inherit s r =
     (case Config_Inherit s (Config r) of
        (cfg, s1) \<Rightarrow>
          (case Context_Inherit s1 (Context (envs s1 (Environment r))) of
             (ctx, s2) \<Rightarrow>
               (\<lparr>Config = cfg, Environment = next_env s2, Loader = Loader r,
                 Template = Template r, RootNode = RootNode r, Output = Output r\<rparr>,
                s2\<lparr>envs := (envs s2)(next_env s2 :=
                       \<lparr>Filters = Filters (envs s2 (Environment r)),
                        Statements = Statements (envs s2 (Environment r)),
                        Tests = Tests (envs s2 (Environment r)),
                        Context = ctx\<rparr>),
                   next_env := Suc (next_env s2)\<rparr>)))"

text \<open>
  \<open>strings.Builder.WriteString\<close> appends and its error is always nil;
  \<open>strings.TrimLeft\<close> and \<open>strings.TrimRight\<close> drop the characters of the cutset.
\<close>

definition WriteString :: "('m, 'a) store \<Rightarrow> ref \<Rightarrow> string \<Rightarrow> ('m, 'a) store" where
  "WriteString s out str = s\<lparr>outs := (outs s)(out := outs s out @ str)\<rparr>"

definition TrimLeft :: "string \<Rightarrow> string \<Rightarrow> string" where
  "TrimLeft str cutset = dropWhile (\<lambda>c. c \<in> set cutset) str"

definition TrimRight :: "string \<Rightarrow> string \<Rightarrow> string" where
  "TrimRight str cutset = rev (dropWhile (\<lambda>c. c \<in> set cutset) (rev str))"

text \<open>
  The nodes that \<open>Visit\<close> tells apart: \<open>DataNode\<close> carries \<open>Data.Val\<close>, \<open>Trim.Left\<close> and
  \<open>Trim.Right\<close>; \<open>OutputNode\<close> carries \<open>Expression\<close>, \<open>Condition\<close> and \<open>Alternative\<close>, the
  last two possibly nil; \<open>StatementBlockNode\<close> carries \<open>Stmt\<close>.
\<close>

datatype ('e, 'st) node =
    CommentNode
  | DataNode string bool bool
  | OutputNode 'e "'e option" "'e option"
  | StatementBlockNode 'st
  | OtherNode

text \<open>
  Lines 71 to 90 of \<open>Visit\<close>, which set the variable \<open>value\<close>: \<open>Inl err\<close> is
  \<open>return nil, err\<close>, \<open>Inr None\<close> is \<open>return nil, nil\<close>, \<open>Inr (Some v)\<close> goes on with \<open>v\<close>.
\<close>

definition Output_value ::
  "('e, 'n, 'st, 'm, 'a) deps \<Rightarrow> ('m, 'a) store \<Rightarrow> Renderer \<Rightarrow> 'e \<Rightarrow> 'e option \<Rightarrow> 'e option \<Rightarrow> error + Value option" where
  "Output_value d s r expression condition alternative =
     (case condition of
        Some c \<Rightarrow>
          (let cv = Eval d s r c in
           if IsError cv
           then Inl (Wrapf (ValueError cv) ''Unable to render condition at line %d: %s''
                      [AInt (Line d c), AStr (Text d c)])
           else if \<not> IsNil cv \<and> IsTrue cv
           then Inr (Some (Eval d s r expression))
           else if IsNil cv \<or> \<not> IsTrue cv
           then (case alternative of
                   Some a \<Rightarrow> Inr (Some (Eval d s r a))
                 | None \<Rightarrow> Inr None)
           else Inl (Wrapf (ValueError cv) ''Unable to evaluation condition as boolean at line %d: %s''
                      [AInt (Line d c), AStr (Text d c)]))
      | None \<Rightarrow> Inr (Some (Eval d s r expression)))"

fun Visit ::
  "('e, 'n, 'st, 'm, 'a) deps \<Rightarrow> ('m, 'a) store \<Rightarrow> Renderer \<Rightarrow> ('e, 'st) node \<Rightarrow>
     panic + ('m, 'a) store \<times> Renderer option \<times> error option" where
  "Visit d s r CommentNode = Inr (s, None, None)"
| "Visit d s r (DataNode val left right) =
     (let output = val;
          output = (if left then TrimLeft output [CHR '' '', CHR 0x0A, CHR 0x09] else output);
          output = (if right then TrimRight output [CHR '' '', CHR 0x0A, CHR 0x09] else output)
      in Inr (WriteString s (Output r) output, None, None))"
| "Visit d s r (OutputNode expression condition alternative) =
     (case Output_value d s r expression condition alternative of
        Inl err \<Rightarrow> Inr (s, None, Some err)
      | Inr None \<Rightarrow> Inr (s, None, None)
      | Inr (Some v) \<Rightarrow>
          if IsError v
          then Inr (s, None, Some (Wrapf (ValueError v) ''Unable to render expression at line %d: %s''
                      [AInt (Line d expression), AStr (Text d expression)]))
          else if AutoEscape (cfgs s (Config r)) \<and> IsString v \<and> \<not> Safe v
          then Inr (WriteString s (Output r) (Escaped v), None, None)
          else Inr (WriteString s (Output r) (String v), None, None))"
| "Visit d s r (StatementBlockNode stmt) =
     (case Statement d stmt of
        Some execute \<Rightarrow>
          (case execute s r of
             Inl p \<Rightarrow> Inl p
           | Inr (s', Some err) \<Rightarrow>
               Inr (s', None, Some (Wrapf err ''Unable to execute statement at line %d: %s''
                      [AInt (StmtLine d stmt), AStr (StmtText d stmt)]))
           | Inr (s', None) \<Rightarrow> Inr (s', None, None))
      | None \<Rightarrow> Inr (s, None, None))"
| "Visit d s r OtherNode = Inr (s, Some r, None)"

section \<open>Import statements\<close>

text \<open>
  The fields that \<open>Execute\<close> reads. \<open>As\<close> maps each alias (or the name itself when no
  alias is given) to the name of the macro, as \<open>fromParser\<close> fills it.
\<close>

record 'e ImportStmt =
  filenameExpression :: 'e
  as :: string
  withContext :: bool

record 'e FromImportStmt =
  FilenameExpression :: 'e
  WithContext :: bool
  As :: "(string \<times> string) list"

text \<open>The format \<open>Unable to import macro '%s'\<close> of both loops.\<close>

definition import_macro_format :: string where
  "import_macro_format = ''Unable to import macro '%s'' @ [CHR 0x27]"

text \<open>The loop of \<open>ImportStmt.Execute\<close> over the macros left, filling the table \<open>macros\<close>.\<close>

fun ImportStmt_range ::
  "('e, 'n, 'st, 'm, 'a) deps \<Rightarrow> ('m, 'a) store \<Rightarrow> Renderer \<Rightarrow> (string \<times> 'n option) list \<Rightarrow>
     (string \<times> 'm) list \<Rightarrow> error + (string \<times> 'm) list" where
  "ImportStmt_range d s r [] macros = Inr macros"
| "ImportStmt_range d s r ((name, macro) # rest) macros =
     (case MacroNodeToFunc d s macro r of
        Inl err \<Rightarrow> Inl (Wrapf err import_macro_format [AStr name])
      | Inr fn \<Rightarrow> ImportStmt_range d s r rest (AList.update name fn macros))"

definition ImportStmt_Execute ::
  "('e, 'n, 'st, 'm, 'a) deps \<Rightarrow> ('m, 'a) store \<Rightarrow> 'e ImportStmt \<Rightarrow> Renderer \<Rightarrow>
     panic + ('m, 'a) store \<times> error option" where
  "ImportStmt_Execute d s stmt r =
     (let filenameValue = Eval d s r (filenameExpression stmt) in
      if IsError filenameValue
      then Inr (s, Some (Wrap (ValueError filenameValue) ''Unable to evaluate filename''))
      else
        (let filename = String filenameValue in
         case Loader_Inherit d (Loader r) filename of
           Inl err \<Rightarrow>
             Inr (s, Some (Errorf ''failed to inherit loader from '%s': %s''
                             [AStr filename, ALoader (Loader r)]))
         | Inr loader \<Rightarrow>
             (case NewTemplate d s filename (Config r) loader (Environment r) of
                Inl err \<Rightarrow>
                  Inr (s, Some (Errorf ''unable to load template '%s': %s''
                                  [AStr filename, AErr err]))
              | Inr template \<Rightarrow>
                  (case ImportStmt_range d s r (Macros d template) [] of
                     Inl err \<Rightarrow> Inr (s, Some err)
                   | Inr macros \<Rightarrow>
                       (case Context_Set s (Context (envs s (Environment r))) (as stmt) (IMacros macros) of
                          Inl p \<Rightarrow> Inl p
                        | Inr s' \<Rightarrow> Inr (s', None))))))"

text \<open>
  The loop of \<open>FromImportStmt.Execute\<close> over the aliases left. \<open>imported[name]\<close> is the
  nil pointer when the template has no macro of that name.
\<close>

fun FromImportStmt_range ::
  "('e, 'n, 'st, 'm, 'a) deps \<Rightarrow> ('m, 'a) store \<Rightarrow> Renderer \<Rightarrow> (string \<times> 'n option) list \<Rightarrow>
     (string \<times> string) list \<Rightarrow> panic + ('m, 'a) store \<times> error option" where
  "FromImportStmt_range d s r imported [] = Inr (s, None)"
| "FromImportStmt_range d s r imported ((alias, name) # rest) =
     (let node = (case map_of imported name of None \<Rightarrow> None | Some n \<Rightarrow> n) in
      case MacroNodeToFunc d s node r of
        Inl err \<Rightarrow> Inr (s, Some (Wrapf err import_macro_format [AStr name]))
      | Inr fn \<Rightarrow>
          (case Context_Set s (Context (envs s (Environment r))) alias (IMacro fn) of
             Inl p \<Rightarrow> Inl p
           | Inr s' \<Rightarrow> FromImportStmt_range d s' r imported rest))"

definition FromImportStmt_Execute ::
  "('e, 'n, 'st, 'm, 'a) deps \<Rightarrow> ('m, 'a) store \<Rightarrow> 'e FromImportStmt \<Rightarrow> Renderer \<Rightarrow>
     panic + ('m, 'a) store \<times> error option" where
  "FromImportStmt_Execute d s stmt r =
     (let filenameValue = Eval d s r (FilenameExpression stmt) in
      if IsError filenameValue
      then Inr (s, Some (Wrap (ValueError filenameValue) ''Unable to evaluate filename''))
      else
        (let filename = String filenameValue in
         case Loader_Inherit d (Loader r) filename of
           Inl err \<Rightarrow>
             Inr (s, Some (Errorf ''failed to inherit loader from '%s': %s''
                             [AStr filename, ALoader (Loader r)]))
         | Inr loader \<Rightarrow>
             (case NewTemplate d s filename (Config r) loader (Environment r) of
                Inl err \<Rightarrow>
                  Inr (s, Some (Errorf ''unable to load template '%s': %s''
                                  [AStr filename, AErr err]))
              | Inr template \<Rightarrow>
                  FromImportStmt_range d s r (Macros d template) (As stmt))))"

section \<open>Example stores\<close>

definition store3 :: "(nat, nat) store" where
  "store3 =
     \<lparr>ctxs = (\<lambda>_. \<lparr>data = None, parent = None\<rparr>)
               (0 := \<lparr>data = Some 0, parent = None\<rparr>,
                1 := \<lparr>data = Some 1, parent = Some 0\<rparr>,
                2 := \<lparr>data = Some 2, parent = Some 1\<rparr>),
      next_ctx = 3,
      maps = (\<lambda>_. [])(0 := [(''x'', IData 1)]),
      next_map = 3,
      cfgs = (\<lambda>_. \<lparr>AutoEscape = False\<rparr>),
      next_cfg = 0,
      envs = (\<lambda>_. \<lparr>Filters = None, Statements = None, Tests = None, Context = 0\<rparr>),
      next_env = 0,
      outs = (\<lambda>_. [])\<rparr>"

text \<open>
  Context 1 is a child of context 0, which alone binds \<open>y\<close>; context 2 has no parent.
\<close>

definition store_upd :: "(nat, nat) store" where
  "store_upd =
     \<lparr>ctxs = (\<lambda>_. \<lparr>data = None, parent = None\<rparr>)
               (0 := \<lparr>data = Some 0, parent = None\<rparr>,
                1 := \<lparr>data = Some 1, parent = Some 0\<rparr>,
                2 := \<lparr>data = Some 2, parent = None\<rparr>),
      next_ctx = 3,
      maps = (\<lambda>_. [])(0 := [(''y'', IData 5)], 1 := [(''k'', IData 7)], 2 := [(''k'', IData 1)]),
      next_map = 3,
      cfgs = (\<lambda>_. \<lparr>AutoEscape = False\<rparr>),
      next_cfg = 0,
      envs = (\<lambda>_. \<lparr>Filters = None, Statements = None, Tests = None, Context = 0\<rparr>),
      next_env = 0,
      outs = (\<lambda>_. [])\<rparr>"

text \<open>
  Example collaborators over expressions, macro nodes and macros that are numbers.
  Expression 0 evaluates to an error value, 1 to the unsafe string \<open><b>\<close>, 2 to
  \<open>false\<close>, 3 to the safe string \<open><b>\<close>, 4 to the file name \<open>lib\<close> and 5 to the file name
  \<open>ok\<close>. Template 0 (from \<open>lib\<close>) has the macros \<open>foo\<close> and \<open>bar\<close>, and wrapping \<open>bar\<close>
  fails; template 1 (from \<open>ok\<close>) has \<open>foo\<close> and \<open>baz\<close>.
\<close>

definition value_ex :: "nat \<Rightarrow> Value" where
  "value_ex e =
     (if e = 0 then \<lparr>IsError = True, IsNil = False, IsTrue = False, IsString = False,
                     Safe = False, Escaped = ''boom'', String = ''boom''\<rparr>
      else if e = 1 then \<lparr>IsError = False, IsNil = False, IsTrue = True, IsString = True,
                     Safe = False, Escaped = ''&lt;b&gt;'', String = ''<b>''\<rparr>
      else if e = 2 then \<lparr>IsError = False, IsNil = False, IsTrue = False, IsString = False,
                     Safe = False, Escaped = ''False'', String = ''False''\<rparr>
      else if e = 3 then \<lparr>IsError = False, IsNil = False, IsTrue = True, IsString = True,
                     Safe = True, Escaped = ''&lt;b&gt;'', String = ''<b>''\<rparr>
      else if e = 4 then \<lparr>IsError = False, IsNil = False, IsTrue = True, IsString = True,
                     Safe = False, Escaped = ''lib'', String = ''lib''\<rparr>
      else \<lparr>IsError = False, IsNil = False, IsTrue = True, IsString = True,
                     Safe = False, Escaped = ''ok'', String = ''ok''\<rparr>)"

definition deps_ex :: "(nat, nat, nat, nat, nat) deps" where
  "deps_ex =
     \<lparr>Eval = (\<lambda>s r e. value_ex e),
      Line = (\<lambda>e. int e + 1),
      Text = (\<lambda>e. ''expr''),
      Self = (\<lambda>r. IData 0),
      root = (\<lambda>t. t),
      Loader_Inherit = (\<lambda>l filename. Inr l),
      NewTemplate = (\<lambda>s filename cfg l env. if filename = ''lib'' then Inr 0 else Inr 1),
      Macros = (\<lambda>t. if t = 0 then [(''foo'', Some 10), (''bar'', Some 11)]
                      else [(''foo'', Some 20), (''baz'', Some 21)]),
      MacroNodeToFunc = (\<lambda>s n r. case n of
                           None \<Rightarrow> Inl (Failure ''no macro'')
                         | Some k \<Rightarrow> if k = 11 then Inl (Failure ''bad default'') else Inr k),
      Statement = (\<lambda>st. None),
      StmtLine = (\<lambda>st. 1),
      StmtText = (\<lambda>st. ''stmt'')\<rparr>"

text \<open>
  A store with one context (and its empty map), one configuration with autoescaping on,
  and one environment; \<open>renderer_ex\<close> renders into sink 0 with them.
\<close>

definition store_r :: "(nat, nat) store" where
  "store_r =
     \<lparr>ctxs = (\<lambda>_. \<lparr>data = None, parent = None\<rparr>)(0 := \<lparr>data = Some 0, parent = None\<rparr>),
      next_ctx = 1,
      maps = (\<lambda>_. []),
      next_map = 1,
      cfgs = (\<lambda>_. \<lparr>AutoEscape = True\<rparr>),
      next_cfg = 1,
      envs = (\<lambda>_. \<lparr>Filters = Some 0, Statements = Some 1, Tests = Some 2, Context = 0\<rparr>),
      next_env = 1,
      outs = (\<lambda>_. [])\<rparr>"

definition renderer_ex :: Renderer where
  "renderer_ex =
     \<lparr>Config = 0, Environment = 0, Loader = 0, Template = 0, RootNode = 0, Output = 0\<rparr>"

text \<open>
  \<open>{% import "ok" as L %}\<close>, \<open>{% import "lib" as L %}\<close>, \<open>{% from "ok" import foo as bar %}\<close>
  and \<open>{% from "lib" import foo as a, bar as b %}\<close>, the last with \<open>a\<close> visited first.
\<close>

definition import_ok :: "nat ImportStmt" where
  "import_ok = \<lparr>filenameExpression = 5, as = ''L'', withContext = False\<rparr>"

definition import_bad :: "nat ImportStmt" where
  "import_bad = \<lparr>filenameExpression = 4, as = ''L'', withContext = False\<rparr>"

definition from_ok :: "nat FromImportStmt" where
  "from_ok = \<lparr>FilenameExpression = 5, WithContext = False, As = [(''bar'', ''foo'')]\<rparr>"

definition from_bad :: "nat FromImportStmt" where
  "from_bad = \<lparr>FilenameExpression = 4, WithContext = False,
               As = [(''a'', ''foo''), (''b'', ''bar'')]\<rparr>"

text \<open>The store before anything is allocated.\<close>

definition empty_store :: "(nat, nat) store" where
  "empty_store =
     \<lparr>ctxs = (\<lambda>_. \<lparr>data = None, parent = None\<rparr>),
      next_ctx = 0,
      maps = (\<lambda>_. []),
      next_map = 0,
      cfgs = (\<lambda>_. \<lparr>AutoEscape = False\<rparr>),
      next_cfg = 0,
      envs = (\<lambda>_. \<lparr>Filters = None, Statements = None, Tests = None, Context = 0\<rparr>),
      next_env = 0,
      outs = (\<lambda>_. [])\<rparr>"

section \<open>Properties of Context\<close>

lemma Set_result:
  "data (ctxs s ctx) = Some m \<Longrightarrow>
   Context_Set s ctx name v = Inr (s\<lparr>maps := (maps s)(m := AList.update name v (maps s m))\<rparr>)"
  by (simp add: Context_Set_def frame_assign_def)

lemma Set_nil_map:
  "data (ctxs s ctx) = None \<Longrightarrow> Context_Set s ctx name v = Inl NilMapAssign"
  by (simp add: Context_Set_def frame_assign_def)

lemma Set_index:
  assumes "Context_Set s ctx name v = Inr s'"
  shows "index (frame s' ctx) x = (if x = name then Some v else index (frame s ctx) x)"
proof (cases "data (ctxs s ctx)")
  case None
  with assms show ?thesis by (simp add: Set_nil_map)
next
  case (Some m)
  from assms Set_result [OF Some, of name v]
  have "s' = s\<lparr>maps := (maps s)(m := AList.update name v (maps s m))\<rparr>" by simp
  with Some show ?thesis by (simp add: frame_def index_def update_conv')
qed

lemma frame_only_refl: "frame_only s s ctx"
  by (simp add: frame_only_def split: option.splits)

lemma frame_only_Set:
  "Context_Set s ctx name v = Inr s' \<Longrightarrow> frame_only s s' ctx"
  by (auto simp: Context_Set_def frame_assign_def frame_only_def split: option.splits)

lemma frame_only_other:
  assumes "frame_only s s' ctx" and "Some m \<noteq> data (ctxs s ctx)"
  shows "maps s' m = maps s m"
proof (cases "data (ctxs s ctx)")
  case None
  with assms(1) show ?thesis by (simp add: frame_only_def)
next
  case (Some m0)
  with assms(1) have "maps s' = (maps s)(m0 := maps s' m0)" by (simp add: frame_only_def)
  then have "maps s' m = ((maps s)(m0 := maps s' m0)) m" by simp
  also have "\<dots> = maps s m" using Some assms(2) by simp
  finally show ?thesis .
qed

lemma frame_only_trans:
  assumes "frame_only s s1 ctx" and "frame_only s1 s2 ctx"
  shows "frame_only s s2 ctx"
proof (cases "data (ctxs s ctx)")
  case None
  with assms show ?thesis by (simp add: frame_only_def)
next
  case (Some m)
  from assms(1) Some have 1: "maps s1 = (maps s)(m := maps s1 m)" and c: "ctxs s1 = ctxs s"
    by (simp_all add: frame_only_def)
  from assms(2) Some c have 2: "maps s2 = (maps s1)(m := maps s2 m)"
    by (simp add: frame_only_def)
  have "maps s2 = ((maps s)(m := maps s1 m))(m := maps s2 m)"
    using 1 2 by simp
  then have "maps s2 = (maps s)(m := maps s2 m)" by simp
  with assms Some show ?thesis by (simp add: frame_only_def)
qed

lemma frame_only_index:
  assumes "frame_only s s' ctx" and "q \<noteq> ctx" and "data (ctxs s q) \<noteq> data (ctxs s ctx)"
  shows "frame s' q = frame s q"
proof (cases "data (ctxs s q)")
  case None
  with assms(1) show ?thesis by (simp add: frame_def frame_only_def)
next
  case (Some m)
  with assms(3) have "Some m \<noteq> data (ctxs s ctx)" by simp
  from frame_only_other [OF assms(1) this] Some assms(1) show ?thesis
    by (simp add: frame_def frame_only_def)
qed

lemma chain_Get:
  "chain s c ps \<Longrightarrow>
   Context_Get s c name =
     Some (case first_match (map (frame s) (c # ps)) name of
             Some v \<Rightarrow> (v, True) | None \<Rightarrow> (INil, False))"
proof (induction ps arbitrary: c)
  case Nil
  then show ?case
    by (subst Context_Get.simps) (simp split: option.splits)
next
  case (Cons p ps)
  then have "parent (ctxs s c) = Some p" and "chain s p ps" by simp_all
  with Cons.IH [of p] show ?case
    by (subst Context_Get.simps) (simp split: option.splits)
qed

lemma chain_Has:
  "chain s c ps \<Longrightarrow>
   Context_Has s c name = Some (first_match (map (frame s) (c # ps)) name \<noteq> None)"
proof (induction ps arbitrary: c)
  case Nil
  then show ?case
    by (subst Context_Has.simps) (simp split: option.splits)
next
  case (Cons p ps)
  then have "parent (ctxs s c) = Some p" and "chain s p ps" by simp_all
  with Cons.IH [of p] show ?case
    by (subst Context_Has.simps) (simp split: option.splits)
qed

lemma first_match_None:
  "(\<forall>f \<in> set fs. index f name = None) \<Longrightarrow> first_match fs name = None"
  by (induction fs) simp_all

lemma first_match_None_iff:
  "first_match fs name = None \<longleftrightarrow> (\<forall>f \<in> set fs. index f name = None)"
  by (induction fs) (auto split: option.splits)

lemma first_match_append:
  "(\<forall>f \<in> set fs. index f name = None) \<Longrightarrow> first_match (fs @ gs) name = first_match gs name"
  by (induction fs) simp_all

lemma first_match_last:
  assumes "fs \<noteq> []" and "\<forall>f \<in> set (butlast fs). index f name = None"
    and "index (last fs) name = Some v"
  shows "first_match fs name = Some v"
proof -
  have "first_match (butlast fs @ [last fs]) name = first_match [last fs] name"
    using assms(2) by (rule first_match_append)
  with assms(1,3) show ?thesis by simp
qed

text \<open>
  Claim C5. Along any finite parent chain, \<open>Get\<close> and \<open>Has\<close> return what the first frame
  with a binding for the name says, the local frame being checked first and the ancestors
  in order. A name bound in no frame of the chain is not found: \<open>Get\<close> returns
  \<open>(nil, false)\<close> and \<open>Has\<close> returns \<open>false\<close>. A name bound only in the last frame of
  the chain, the root, is found from the leaf.
\<close>

theorem Context_lookup_chain:
  assumes "chain s c ps"
  shows "Context_Get s c name =
           Some (case first_match (map (frame s) (c # ps)) name of
                   Some v \<Rightarrow> (v, True) | None \<Rightarrow> (INil, False))
       \<and> Context_Has s c name = Some (first_match (map (frame s) (c # ps)) name \<noteq> None)
       \<and> ((\<forall>c' \<in> set (c # ps). index (frame s c') name = None) \<longrightarrow>
            Context_Get s c name = Some (INil, False) \<and> Context_Has s c name = Some False)
       \<and> (\<forall>v. (\<forall>c' \<in> set (butlast (c # ps)). index (frame s c') name = None) \<and>
               index (frame s (last (c # ps))) name = Some v \<longrightarrow>
            Context_Get s c name = Some (v, True) \<and> Context_Has s c name = Some True)"
proof -
  let ?fs = "map (frame s) (c # ps)"
  have G: "Context_Get s c name =
      Some (case first_match ?fs name of Some v \<Rightarrow> (v, True) | None \<Rightarrow> (INil, False))"
    using assms by (rule chain_Get)
  have H: "Context_Has s c name = Some (first_match ?fs name \<noteq> None)"
    using assms by (rule chain_Has)
  have A: "(\<forall>c' \<in> set (c # ps). index (frame s c') name = None) \<longrightarrow>
      Context_Get s c name = Some (INil, False) \<and> Context_Has s c name = Some False"
  proof
    assume "\<forall>c' \<in> set (c # ps). index (frame s c') name = None"
    then have "\<forall>f \<in> set ?fs. index f name = None" by simp
    then have "first_match ?fs name = None" by (rule first_match_None)
    with G H show "Context_Get s c name = Some (INil, False) \<and> Context_Has s c name = Some False"
      by simp
  qed
  have R: "\<forall>v. (\<forall>c' \<in> set (butlast (c # ps)). index (frame s c') name = None) \<and>
               index (frame s (last (c # ps))) name = Some v \<longrightarrow>
            Context_Get s c name = Some (v, True) \<and> Context_Has s c name = Some True"
  proof (intro allI impI)
    fix v
    assume a: "(\<forall>c' \<in> set (butlast (c # ps)). index (frame s c') name = None) \<and>
               index (frame s (last (c # ps))) name = Some v"
    have b: "butlast ?fs = map (frame s) (butlast (c # ps))" by (simp only: map_butlast)
    have l: "last ?fs = frame s (last (c # ps))" by (simp add: last_map)
    have "\<forall>f \<in> set (butlast ?fs). index f name = None"
      unfolding b using a by auto
    moreover have "index (last ?fs) name = Some v" unfolding l using a by simp
    ultimately have "first_match ?fs name = Some v"
      using first_match_last [of ?fs name v] by simp
    with G H show "Context_Get s c name = Some (v, True) \<and> Context_Has s c name = Some True"
      by simp
  qed
  from G H A R show ?thesis by blast
qed

theorem Context_lookup_chain_witness:
  "chain store3 2 [1, 0]
   \<and> Context_Get store3 2 ''x'' = Some (IData 1, True)
   \<and> Context_Has store3 2 ''x'' = Some True
   \<and> Context_Get store3 2 ''y'' = Some (INil, False)
   \<and> Context_Has store3 2 ''y'' = Some False"
  using Context_lookup_chain [of store3 2 "[1, 0]" "''x''"]
    Context_lookup_chain [of store3 2 "[1, 0]" "''y''"]
  by (simp add: store3_def frame_def index_def)

text \<open>The constructors and writers of contexts keep the store well-formed.\<close>

lemma wf_empty_store: "wf_store empty_store"
  by (simp add: wf_store_def empty_store_def)

lemma wf_EmptyContext: "wf_store s \<Longrightarrow> wf_store (snd (EmptyContext s))"
  by (auto simp: wf_store_def EmptyContext_def less_Suc_eq)

lemma wf_NewContext:
  "wf_store s \<Longrightarrow> (\<forall>m. d = Some m \<longrightarrow> m < next_map s) \<Longrightarrow> wf_store (snd (NewContext s d))"
  by (auto simp: wf_store_def NewContext_def less_Suc_eq)

lemma wf_Inherit:
  "wf_store s \<Longrightarrow> c < next_ctx s \<Longrightarrow> wf_store (snd (Context_Inherit s c))"
  by (auto simp: wf_store_def Context_Inherit_def less_Suc_eq)

lemma wf_frame_only: "frame_only s s' c \<Longrightarrow> wf_store s \<Longrightarrow> wf_store s'"
  by (simp add: wf_store_def frame_only_def)

lemma wf_Set: "wf_store s \<Longrightarrow> Context_Set s c k v = Inr s' \<Longrightarrow> wf_store s'"
  using frame_only_Set wf_frame_only by blast

lemma wf_chain:
  "wf_store s \<Longrightarrow> c < next_ctx s \<Longrightarrow> \<exists>ps. chain s c ps \<and> (\<forall>p \<in> set ps. p < c)"
proof (induction c rule: less_induct)
  case (less c)
  show ?case
  proof (cases "parent (ctxs s c)")
    case None
    then have "chain s c []" by simp
    then show ?thesis by fastforce
  next
    case (Some p)
    with less.prems have pc: "p < c" by (simp add: wf_store_def)
    with less.prems have "p < next_ctx s" by simp
    with less.IH [OF pc] less.prems obtain ps where ps: "chain s p ps" "\<forall>q \<in> set ps. q < p"
      by blast
    from Some ps(1) have "chain s c (p # ps)" by simp
    moreover from pc ps(2) have "\<forall>q \<in> set (p # ps). q < c" by auto
    ultimately show ?thesis by blast
  qed
qed

lemma chain_agree:
  "chain s c ps \<Longrightarrow> \<forall>c' \<in> set (c # ps). ctxs s' c' = ctxs s c' \<Longrightarrow> chain s' c ps"
  by (induction ps arbitrary: c) simp_all

lemma first_match_agree:
  "\<forall>c' \<in> set cs. index (frame s' c') name = index (frame s c') name \<Longrightarrow>
   first_match (map (frame s') cs) name = first_match (map (frame s) cs) name"
  by (induction cs) (simp_all split: option.splits)

lemma lookup_agree:
  assumes "chain s c ps"
    and "\<forall>c' \<in> set (c # ps). ctxs s' c' = ctxs s c'"
    and "\<forall>c' \<in> set (c # ps). index (frame s' c') name = index (frame s c') name"
  shows "Context_Get s' c name = Context_Get s c name"
    and "Context_Has s' c name = Context_Has s c name"
proof -
  have c': "chain s' c ps" using assms(1,2) by (rule chain_agree)
  have fm: "first_match (map (frame s') (c # ps)) name = first_match (map (frame s) (c # ps)) name"
    using assms(3) by (rule first_match_agree)
  show "Context_Get s' c name = Context_Get s c name"
    by (simp only: chain_Get [OF c'] chain_Get [OF assms(1)] fm)
  show "Context_Has s' c name = Context_Has s c name"
    by (simp only: chain_Has [OF c'] chain_Has [OF assms(1)] fm)
qed

lemma Get_local:
  "index (frame s c) name = Some v \<Longrightarrow> Context_Get s c name = Some (v, True)"
  by (subst Context_Get.simps) simp

lemma Has_local:
  "index (frame s c) name = Some v \<Longrightarrow> Context_Has s c name = Some True"
  by (subst Context_Has.simps) simp

text \<open>
  Claim C4. In a well-formed store, let \<open>c2\<close> be \<open>c.Inherit()\<close>. After \<open>c2.Set(x, v2)\<close>,
  \<open>c2.Get(x)\<close> returns \<open>v2\<close>, while every context that existed before, \<open>c\<close> and its
  parent among them, has the same frame and answers every \<open>Get\<close> and \<open>Has\<close> as before:
  the child shadows the binding and no ancestor is written. In any store, a \<open>Set\<close> that
  returns has written the map of its receiver and nothing else.
\<close>

theorem Context_Set_shadows:
  assumes "wf_store s" and "c < next_ctx s"
  shows "\<exists>c2 s1 s2.
           Context_Inherit s c = (c2, s1) \<and> Context_Set s1 c2 x v2 = Inr s2
         \<and> Context_Get s2 c2 x = Some (v2, True)
         \<and> Context_Get s2 c x = Context_Get s c x
         \<and> (\<forall>p. parent (ctxs s c) = Some p \<longrightarrow> frame s2 p = frame s p)
         \<and> (\<forall>c' < next_ctx s. ctxs s2 c' = ctxs s c' \<and> frame s2 c' = frame s c'
              \<and> (\<forall>name. Context_Get s2 c' name = Context_Get s c' name
                       \<and> Context_Has s2 c' name = Context_Has s c' name))
         \<and> (\<forall>m < next_map s. maps s2 m = maps s m)
         \<and> (\<forall>t q k w t'. Context_Set t q k w = Inr t' \<longrightarrow>
               frame_only t t' q \<and> index (frame t' q) k = Some w)"
proof -
  define c2 where "c2 = next_ctx s"
  define s1 where "s1 = snd (Context_Inherit s c)"
  define s2 where "s2 = s1\<lparr>maps := (maps s1)(next_map s := AList.update x v2 (maps s1 (next_map s)))\<rparr>"
  have inh: "Context_Inherit s c = (c2, s1)"
    by (simp add: c2_def s1_def Context_Inherit_def)
  have set: "Context_Set s1 c2 x v2 = Inr s2"
    by (simp add: Context_Set_def frame_assign_def s1_def s2_def c2_def Context_Inherit_def)
  have ctxs2: "\<And>c'. c' < next_ctx s \<Longrightarrow> ctxs s2 c' = ctxs s c'"
    by (simp add: s2_def s1_def Context_Inherit_def)
  have maps2: "\<And>m. m < next_map s \<Longrightarrow> maps s2 m = maps s m"
    by (simp add: s2_def s1_def Context_Inherit_def)
  have frame2: "\<And>c'. c' < next_ctx s \<Longrightarrow> frame s2 c' = frame s c'"
  proof -
    fix c' assume a: "c' < next_ctx s"
    show "frame s2 c' = frame s c'"
    proof (cases "data (ctxs s c')")
      case None
      with a show ?thesis by (simp add: frame_def ctxs2)
    next
      case (Some m)
      with a assms(1) have "m < next_map s" by (simp add: wf_store_def)
      with Some a show ?thesis by (simp add: frame_def ctxs2 maps2)
    qed
  qed
  have look: "\<And>c' name. c' < next_ctx s \<Longrightarrow>
      Context_Get s2 c' name = Context_Get s c' name \<and> Context_Has s2 c' name = Context_Has s c' name"
  proof -
    fix c' name assume a: "c' < next_ctx s"
    from wf_chain [OF assms(1) a] obtain ps where ps: "chain s c' ps" "\<forall>p \<in> set ps. p < c'"
      by blast
    from ps(2) a have below: "\<forall>q \<in> set (c' # ps). q < next_ctx s" by auto
    have 1: "\<forall>q \<in> set (c' # ps). ctxs s2 q = ctxs s q" using below ctxs2 by blast
    have 2: "\<forall>q \<in> set (c' # ps). index (frame s2 q) name = index (frame s q) name"
      using below frame2 by simp
    from lookup_agree [OF ps(1) 1 2]
    show "Context_Get s2 c' name = Context_Get s c' name \<and> Context_Has s2 c' name = Context_Has s c' name"
      by simp
  qed
  have new: "Context_Get s2 c2 x = Some (v2, True)"
    by (rule Get_local)
      (simp add: frame_def index_def s2_def s1_def c2_def Context_Inherit_def)
  have par: "\<forall>p. parent (ctxs s c) = Some p \<longrightarrow> frame s2 p = frame s p"
  proof (intro allI impI)
    fix p assume "parent (ctxs s c) = Some p"
    with assms have "p < c" by (simp add: wf_store_def)
    with assms(2) have "p < next_ctx s" by simp
    then show "frame s2 p = frame s p" by (rule frame2)
  qed
  have gen: "\<forall>t q k w t'. Context_Set t q k w = Inr t' \<longrightarrow>
               frame_only t t' q \<and> index (frame t' q) k = Some w"
    by (simp add: frame_only_Set Set_index)
  have old: "\<forall>c' < next_ctx s. ctxs s2 c' = ctxs s c' \<and> frame s2 c' = frame s c'
              \<and> (\<forall>name. Context_Get s2 c' name = Context_Get s c' name
                       \<and> Context_Has s2 c' name = Context_Has s c' name)"
    using ctxs2 frame2 look by simp
  have ms: "\<forall>m < next_map s. maps s2 m = maps s m" using maps2 by simp
  have same: "Context_Get s2 c x = Context_Get s c x" using look [OF assms(2)] by simp
  from inh set new same par old ms gen show ?thesis
    by (intro exI conjI)
qed

lemma wf_store3: "wf_store store3"
  by (auto simp: wf_store_def store3_def less_Suc_eq numeral_3_eq_3)

theorem Context_Set_shadows_witness:
  "wf_store store3 \<and> 1 < next_ctx store3
   \<and> parent (ctxs store3 1) = Some 0 \<and> index (frame store3 0) ''x'' = Some (IData 1)
   \<and> (\<exists>c2 s1 s2.
        Context_Inherit store3 1 = (c2, s1) \<and> Context_Set s1 c2 ''x'' (IData 2) = Inr s2
      \<and> Context_Get s2 c2 ''x'' = Some (IData 2, True)
      \<and> Context_Get s2 1 ''x'' = Some (IData 1, True)
      \<and> index (frame s2 0) ''x'' = Some (IData 1))"
proof -
  have g: "Context_Get store3 1 ''x'' = Some (IData 1, True)"
    using chain_Get [of store3 1 "[0]" "''x''"]
    by (simp add: store3_def frame_def index_def)
  have n: "1 < next_ctx store3" and p: "parent (ctxs store3 1) = Some 0"
    and x: "index (frame store3 0) ''x'' = Some (IData 1)"
    by (simp_all add: store3_def frame_def index_def)
  from Context_Set_shadows [OF wf_store3 n, of "''x''" "IData 2"] obtain c2 s1 s2 where
    i: "Context_Inherit store3 1 = (c2, s1)" and s: "Context_Set s1 c2 ''x'' (IData 2) = Inr s2"
    and a: "Context_Get s2 c2 ''x'' = Some (IData 2, True)"
    and b: "Context_Get s2 1 ''x'' = Context_Get store3 1 ''x''"
    and c: "\<forall>p. parent (ctxs store3 1) = Some p \<longrightarrow> frame s2 p = frame store3 p"
    by blast
  from c p x have "index (frame s2 0) ''x'' = Some (IData 1)" by simp
  with wf_store3 n p x i s a b g show ?thesis by auto
qed

lemma Update_range_Some:
  "data (ctxs s a) = Some ma \<Longrightarrow>
   Update_range s a kvs =
     Inr (s\<lparr>maps := (maps s)(ma := fold (\<lambda>(k, v). AList.update k v) kvs (maps s ma))\<rparr>)"
proof (induction kvs arbitrary: s)
  case Nil
  then show ?case by simp
next
  case (Cons kv kvs)
  obtain k v where kv: "kv = (k, v)" by (cases kv)
  let ?f = "\<lambda>(k, v). AList.update k v"
  let ?s1 = "s\<lparr>maps := (maps s)(ma := AList.update k v (maps s ma))\<rparr>"
  have d: "data (ctxs ?s1 a) = Some ma" using Cons.prems by simp
  have step: "frame_assign s a k v = Inr ?s1"
    using Cons.prems by (simp add: frame_assign_def)
  have eq: "?s1\<lparr>maps := (maps ?s1)(ma := fold ?f kvs (maps ?s1 ma))\<rparr> =
            s\<lparr>maps := (maps s)(ma := fold ?f (kv # kvs) (maps s ma))\<rparr>"
    by (simp add: kv)
  have "Update_range s a (kv # kvs) = Update_range ?s1 a kvs"
    by (simp add: kv step)
  also have "\<dots> = Inr (?s1\<lparr>maps := (maps ?s1)(ma := fold ?f kvs (maps ?s1 ma))\<rparr>)"
    by (rule Cons.IH [OF d])
  finally show ?case by (simp only: eq)
qed

lemma map_of_fold_update:
  "map_of (fold (\<lambda>(k, v). AList.update k v) kvs al) = map_of al ++ map_of (rev kvs)"
proof (induction kvs arbitrary: al)
  case Nil
  then show ?case by simp
next
  case (Cons kv kvs)
  obtain k v where kv: "kv = (k, v)" by (cases kv)
  show ?case
    by (simp add: kv Cons.IH update_conv' map_add_upd_left fun_eq_iff map_add_def split: option.splits)
qed

lemma map_of_rev_distinct:
  "distinct (map fst kvs) \<Longrightarrow> map_of (rev kvs) = map_of kvs"
proof (induction kvs)
  case Nil
  then show ?case by simp
next
  case (Cons kv kvs)
  obtain k v where kv: "kv = (k, v)" by (cases kv)
  from Cons.prems have "map_of kvs k = None" and "distinct (map fst kvs)"
    by (auto simp: kv map_of_eq_None_iff)
  with Cons.IH show ?case
    by (auto simp: kv fun_eq_iff map_add_def split: option.splits)
qed

lemma fold_update_distinct:
  "distinct (map fst kvs) \<Longrightarrow>
   map_of (fold (\<lambda>(k, v). AList.update k v) kvs al) = map_of al ++ map_of kvs"
  by (simp add: map_of_fold_update map_of_rev_distinct)

lemma wf_Update:
  assumes "wf_store s" and "Context_Update s a b = Inr (a', s')"
  shows "wf_store s'"
proof (cases "data (ctxs s a)")
  case None
  have "Update_range s a kvs = Inr s' \<Longrightarrow> s' = s" for kvs
    using None by (cases kvs) (auto simp: frame_assign_def)
  with assms show ?thesis
    by (auto simp: Context_Update_def split: sum.splits)
next
  case (Some ma)
  from assms(2) have "s' = s\<lparr>maps := (maps s)(ma :=
      fold (\<lambda>(k, v). AList.update k v) (entries (frame s b)) (maps s ma))\<rparr>"
    by (simp add: Context_Update_def Update_range_Some [OF Some])
  then have "frame_only s s' a"
    by (simp add: frame_only_def Some)
  with assms(1) show ?thesis by (rule wf_frame_only [rotated])
qed

text \<open>
  Claim C6. When the receiver \<open>a\<close> has a map, \<open>a.Update(b)\<close> returns \<open>a\<close> and the local
  frame of \<open>a\<close> becomes its old entries overwritten by the entries of the local frame of
  \<open>b\<close>; nothing else in the store changes. A name that the local frame of \<open>b\<close> does not
  bind, such as one bound only in the parent of \<open>b\<close>, is looked up from \<open>a\<close> after the call
  as it was before.
\<close>

theorem Context_Update_local_only:
  assumes "data (ctxs s a) = Some ma" and "distinct (map fst (entries (frame s b)))"
  shows "\<exists>s'. Context_Update s a b = Inr (a, s')
       \<and> map_of (maps s' ma) = map_of (maps s ma) ++ map_of (entries (frame s b))
       \<and> (\<forall>name. index (frame s' a) name =
             (case index (frame s b) name of Some v \<Rightarrow> Some v | None \<Rightarrow> index (frame s a) name))
       \<and> ctxs s' = ctxs s
       \<and> (\<forall>m. m \<noteq> ma \<longrightarrow> maps s' m = maps s m)
       \<and> (\<forall>y ps. chain s a ps \<and> index (frame s b) y = None \<longrightarrow>
             Context_Has s' a y = Context_Has s a y \<and> Context_Get s' a y = Context_Get s a y)"
proof -
  let ?kvs = "entries (frame s b)"
  define s' where "s' = s\<lparr>maps := (maps s)(ma := fold (\<lambda>(k, v). AList.update k v) ?kvs (maps s ma))\<rparr>"
  have upd: "Context_Update s a b = Inr (a, s')"
    by (simp add: Context_Update_def Update_range_Some [OF assms(1)] s'_def)
  have m: "map_of (maps s' ma) = map_of (maps s ma) ++ map_of ?kvs"
    by (simp add: s'_def fold_update_distinct [OF assms(2)])
  have c: "ctxs s' = ctxs s" by (simp add: s'_def)
  have o: "\<forall>m. m \<noteq> ma \<longrightarrow> maps s' m = maps s m" by (simp add: s'_def)
  have ib: "\<And>name. index (frame s b) name = map_of ?kvs name"
    by (simp add: index_def entries_def split: option.splits)
  have ia: "\<forall>name. index (frame s' a) name =
      (case index (frame s b) name of Some v \<Rightarrow> Some v | None \<Rightarrow> index (frame s a) name)"
  proof
    fix name
    have "index (frame s' a) name = (map_of (maps s ma) ++ map_of ?kvs) name"
      using assms(1) by (simp add: frame_def index_def c m)
    moreover have "index (frame s a) name = map_of (maps s ma) name"
      using assms(1) by (simp add: frame_def index_def)
    ultimately show "index (frame s' a) name =
        (case index (frame s b) name of Some v \<Rightarrow> Some v | None \<Rightarrow> index (frame s a) name)"
      by (simp add: ib map_add_def split: option.splits)
  qed
  have every: "\<And>q y. index (frame s b) y = None \<Longrightarrow> index (frame s' q) y = index (frame s q) y"
  proof -
    fix q y assume n: "index (frame s b) y = None"
    show "index (frame s' q) y = index (frame s q) y"
    proof (cases "data (ctxs s q) = Some ma")
      case True
      from n have kn: "map_of ?kvs y = None" by (simp only: ib)
      have "index (frame s' q) y = (map_of (maps s ma) ++ map_of ?kvs) y"
        using True by (simp add: frame_def index_def c m)
      also have "\<dots> = map_of (maps s ma) y" using kn by (simp add: map_add_def)
      also have "\<dots> = index (frame s q) y" using True by (simp add: frame_def index_def)
      finally show ?thesis .
    next
      case False
      then show ?thesis by (cases "data (ctxs s q)") (simp_all add: frame_def index_def c o)
    qed
  qed
  have l: "\<forall>y ps. chain s a ps \<and> index (frame s b) y = None \<longrightarrow>
             Context_Has s' a y = Context_Has s a y \<and> Context_Get s' a y = Context_Get s a y"
  proof (intro allI impI)
    fix y ps assume h: "chain s a ps \<and> index (frame s b) y = None"
    have 1: "\<forall>q \<in> set (a # ps). ctxs s' q = ctxs s q" by (simp add: c)
    have 2: "\<forall>q \<in> set (a # ps). index (frame s' q) y = index (frame s q) y"
      using h every by blast
    from h have ch: "chain s a ps" by simp
    from lookup_agree [OF ch 1 2]
    show "Context_Has s' a y = Context_Has s a y \<and> Context_Get s' a y = Context_Get s a y"
      by simp
  qed
  from upd m ia c o l show ?thesis by blast
qed

theorem Context_Update_local_only_witness:
  "data (ctxs store_upd 2) = Some 2
   \<and> distinct (map fst (entries (frame store_upd 1)))
   \<and> Context_Has store_upd 1 ''y'' = Some True
   \<and> (\<exists>s'. Context_Update store_upd 2 1 = Inr (2, s')
        \<and> index (frame s' 2) ''k'' = Some (IData 7)
        \<and> index (frame s' 2) ''y'' = None
        \<and> Context_Has s' 2 ''y'' = Some False)"
proof -
  have d: "data (ctxs store_upd 2) = Some 2"
    and e: "distinct (map fst (entries (frame store_upd 1)))"
    by (simp_all add: store_upd_def frame_def entries_def)
  have c: "chain store_upd 2 []" and b: "index (frame store_upd 1) ''y'' = None"
    and k: "index (frame store_upd 1) ''k'' = Some (IData 7)"
    and a: "index (frame store_upd 2) ''y'' = None"
    by (simp_all add: store_upd_def frame_def index_def)
  have h1: "Context_Has store_upd 1 ''y'' = Some True"
    using chain_Has [of store_upd 1 "[0]" "''y''"]
    by (simp add: store_upd_def frame_def index_def)
  have h2: "Context_Has store_upd 2 ''y'' = Some False"
    using chain_Has [OF c, of "''y''"] a by simp
  from Context_Update_local_only [OF d e] obtain s' where
    s': "Context_Update store_upd 2 1 = Inr (2, s')"
      "\<forall>name. index (frame s' 2) name =
         (case index (frame store_upd 1) name of Some v \<Rightarrow> Some v
          | None \<Rightarrow> index (frame store_upd 2) name)"
      "\<forall>y ps. chain store_upd 2 ps \<and> index (frame store_upd 1) y = None \<longrightarrow>
         Context_Has s' 2 y = Context_Has store_upd 2 y \<and> Context_Get s' 2 y = Context_Get store_upd 2 y"
    by blast
  from s'(2) k have "index (frame s' 2) ''k'' = Some (IData 7)" by simp
  moreover from s'(2) a b have "index (frame s' 2) ''y'' = None" by simp
  moreover from s'(3) c b h2 have "Context_Has s' 2 ''y'' = Some False" by metis
  ultimately show ?thesis using d e h1 s'(1) by blast
qed

section \<open>Properties of the registries\<close>

lemma range_assign_Some:
  "range_assign (Some al) kvs = Inr (Some (fold (\<lambda>(k, v). AList.update k v) kvs al))"
proof (induction kvs arbitrary: al)
  case Nil
  show ?case by simp
next
  case (Cons kv kvs)
  obtain k v where kv: "kv = (k, v)" by (cases kv)
  show ?case by (simp add: kv assign_def Cons.IH)
qed

lemma range_assign_nil:
  "range_assign None [] = Inr None"
  "range_assign None ((k, v) # kvs) = Inl NilMapAssign"
  by (simp_all add: assign_def)

lemma Update_merge:
  assumes "distinct (map fst (entries other))"
  shows "\<exists>al'. range_assign (Some al) (entries other) = Inr (Some al')
           \<and> map_of al' = map_of al ++ map_of (entries other)
           \<and> (\<forall>k. index (Some al') k = (case index other k of Some v \<Rightarrow> Some v | None \<Rightarrow> index (Some al) k))"
proof -
  let ?al' = "fold (\<lambda>(k, v). AList.update k v) (entries other) al"
  have m: "map_of ?al' = map_of al ++ map_of (entries other)"
    using assms by (rule fold_update_distinct)
  have i: "\<And>k. index other k = map_of (entries other) k"
    by (simp add: index_def entries_def split: option.splits)
  have "\<forall>k. index (Some ?al') k = (case index other k of Some v \<Rightarrow> Some v | None \<Rightarrow> index (Some al) k)"
  proof
    fix k
    have j: "index (Some al) k = map_of al k" by (simp add: index_def)
    have "index (Some ?al') k = (map_of al ++ map_of (entries other)) k"
      by (simp add: index_def m)
    also have "\<dots> = (case map_of (entries other) k of Some v \<Rightarrow> Some v | None \<Rightarrow> map_of al k)"
      by (simp add: map_add_def split: option.splits)
    finally show "index (Some ?al') k =
        (case index other k of Some v \<Rightarrow> Some v | None \<Rightarrow> index (Some al) k)"
      by (simp only: i j)
  qed
  with m range_assign_Some [of al "entries other"] show ?thesis by blast
qed

lemma Exists_Some: "index fs n \<noteq> None \<Longrightarrow> \<exists>al. fs = Some al"
  by (cases fs) (simp_all add: index_def)

lemma FilterSet_discipline:
  "(FilterSet_Exists fs n \<longrightarrow> (\<exists>e. FilterSet_Register fs n f = Inr (fs, Some e)))
 \<and> (\<not> FilterSet_Exists fs n \<and> fs = Some al \<longrightarrow>
      (\<exists>al'. FilterSet_Register fs n f = Inr (Some al', None) \<and> map_of al' = (map_of al)(n \<mapsto> f)))
 \<and> (\<not> FilterSet_Exists fs n \<longrightarrow> (\<exists>e. FilterSet_Replace fs n f = Inr (fs, Some e)))
 \<and> (FilterSet_Exists fs n \<longrightarrow>
      (\<exists>al'. FilterSet_Replace fs n f = Inr (Some al', None) \<and> index (Some al') n = Some f
         \<and> (\<forall>k. k \<noteq> n \<longrightarrow> index (Some al') k = index fs k)))
 \<and> (fs = Some al \<and> distinct (map fst (entries other)) \<longrightarrow>
      (\<exists>al'. FilterSet_Update fs other = Inr (Some al')
         \<and> (\<forall>k. index (Some al') k = (case index other k of Some v \<Rightarrow> Some v | None \<Rightarrow> index fs k))))"
proof (intro conjI impI)
  assume "FilterSet_Exists fs n"
  then show "\<exists>e. FilterSet_Register fs n f = Inr (fs, Some e)"
    by (simp add: FilterSet_Register_def)
next
  assume "\<not> FilterSet_Exists fs n \<and> fs = Some al"
  then show "\<exists>al'. FilterSet_Register fs n f = Inr (Some al', None) \<and> map_of al' = (map_of al)(n \<mapsto> f)"
    by (auto simp: FilterSet_Register_def assign_def update_conv')
next
  assume "\<not> FilterSet_Exists fs n"
  then show "\<exists>e. FilterSet_Replace fs n f = Inr (fs, Some e)"
    by (simp add: FilterSet_Replace_def)
next
  assume e: "FilterSet_Exists fs n"
  then obtain al0 where "fs = Some al0"
    using Exists_Some [of fs n] by (auto simp: FilterSet_Exists_def)
  with e show "\<exists>al'. FilterSet_Replace fs n f = Inr (Some al', None) \<and> index (Some al') n = Some f
         \<and> (\<forall>k. k \<noteq> n \<longrightarrow> index (Some al') k = index fs k)"
    by (simp add: FilterSet_Replace_def assign_def index_def update_conv')
next
  assume "fs = Some al \<and> distinct (map fst (entries other))"
  with Update_merge [of other al]
  show "\<exists>al'. FilterSet_Update fs other = Inr (Some al')
         \<and> (\<forall>k. index (Some al') k = (case index other k of Some v \<Rightarrow> Some v | None \<Rightarrow> index fs k))"
    by (auto simp: FilterSet_Update_def)
qed

lemma StatementSet_discipline:
  "(StatementSet_Exists ss n \<longrightarrow> (\<exists>e. StatementSet_Register ss n f = Inr (ss, Some e)))
 \<and> (\<not> StatementSet_Exists ss n \<and> ss = Some al \<longrightarrow>
      (\<exists>al'. StatementSet_Register ss n f = Inr (Some al', None) \<and> map_of al' = (map_of al)(n \<mapsto> f)))
 \<and> (\<not> StatementSet_Exists ss n \<longrightarrow> (\<exists>e. StatementSet_Replace ss n f = Inr (ss, Some e)))
 \<and> (StatementSet_Exists ss n \<longrightarrow>
      (\<exists>al'. StatementSet_Replace ss n f = Inr (Some al', None) \<and> index (Some al') n = Some f
         \<and> (\<forall>k. k \<noteq> n \<longrightarrow> index (Some al') k = index ss k)))
 \<and> (ss = Some al \<and> distinct (map fst (entries other)) \<longrightarrow>
      (\<exists>al'. StatementSet_Update ss other = Inr (Some al')
         \<and> (\<forall>k. index (Some al') k = (case index other k of Some v \<Rightarrow> Some v | None \<Rightarrow> index ss k))))"
proof (intro conjI impI)
  assume "StatementSet_Exists ss n"
  then show "\<exists>e. StatementSet_Register ss n f = Inr (ss, Some e)"
    by (simp add: StatementSet_Register_def)
next
  assume "\<not> StatementSet_Exists ss n \<and> ss = Some al"
  then show "\<exists>al'. StatementSet_Register ss n f = Inr (Some al', None) \<and> map_of al' = (map_of al)(n \<mapsto> f)"
    by (auto simp: StatementSet_Register_def assign_def update_conv')
next
  assume "\<not> StatementSet_Exists ss n"
  then show "\<exists>e. StatementSet_Replace ss n f = Inr (ss, Some e)"
    by (simp add: StatementSet_Replace_def)
next
  assume e: "StatementSet_Exists ss n"
  then obtain al0 where "ss = Some al0"
    using Exists_Some [of ss n] by (auto simp: StatementSet_Exists_def)
  with e show "\<exists>al'. StatementSet_Replace ss n f = Inr (Some al', None) \<and> index (Some al') n = Some f
         \<and> (\<forall>k. k \<noteq> n \<longrightarrow> index (Some al') k = index ss k)"
    by (simp add: StatementSet_Replace_def assign_def index_def update_conv')
next
  assume "ss = Some al \<and> distinct (map fst (entries other))"
  with Update_merge [of other al]
  show "\<exists>al'. StatementSet_Update ss other = Inr (Some al')
         \<and> (\<forall>k. index (Some al') k = (case index other k of Some v \<Rightarrow> Some v | None \<Rightarrow> index ss k))"
    by (auto simp: StatementSet_Update_def)
qed

lemma TestSet_discipline:
  "(TestSet_Exists ts n \<longrightarrow> (\<exists>e. TestSet_Register ts n f = Inr (ts, Some e)))
 \<and> (\<not> TestSet_Exists ts n \<and> ts = Some al \<longrightarrow>
      (\<exists>al'. TestSet_Register ts n f = Inr (Some al', None) \<and> map_of al' = (map_of al)(n \<mapsto> f)))
 \<and> (\<not> TestSet_Exists ts n \<longrightarrow> (\<exists>e. TestSet_Replace ts n f = Inr (ts, Some e)))
 \<and> (TestSet_Exists ts n \<longrightarrow>
      (\<exists>al'. TestSet_Replace ts n f = Inr (Some al', None) \<and> index (Some al') n = Some f
         \<and> (\<forall>k. k \<noteq> n \<longrightarrow> index (Some al') k = index ts k)))
 \<and> (ts = Some al \<and> distinct (map fst (entries other)) \<longrightarrow>
      (\<exists>al'. TestSet_Update ts other = Inr (Some al')
         \<and> (\<forall>k. index (Some al') k = (case index other k of Some v \<Rightarrow> Some v | None \<Rightarrow> index ts k))))"
proof (intro conjI impI)
  assume "TestSet_Exists ts n"
  then show "\<exists>e. TestSet_Register ts n f = Inr (ts, Some e)"
    by (simp add: TestSet_Register_def)
next
  assume "\<not> TestSet_Exists ts n \<and> ts = Some al"
  then show "\<exists>al'. TestSet_Register ts n f = Inr (Some al', None) \<and> map_of al' = (map_of al)(n \<mapsto> f)"
    by (auto simp: TestSet_Register_def assign_def update_conv')
next
  assume "\<not> TestSet_Exists ts n"
  then show "\<exists>e. TestSet_Replace ts n f = Inr (ts, Some e)"
    by (simp add: TestSet_Replace_def)
next
  assume e: "TestSet_Exists ts n"
  then obtain al0 where "ts = Some al0"
    using Exists_Some [of ts n] by (auto simp: TestSet_Exists_def)
  with e show "\<exists>al'. TestSet_Replace ts n f = Inr (Some al', None) \<and> index (Some al') n = Some f
         \<and> (\<forall>k. k \<noteq> n \<longrightarrow> index (Some al') k = index ts k)"
    by (simp add: TestSet_Replace_def assign_def index_def update_conv')
next
  assume "ts = Some al \<and> distinct (map fst (entries other))"
  with Update_merge [of other al]
  show "\<exists>al'. TestSet_Update ts other = Inr (Some al')
         \<and> (\<forall>k. index (Some al') k = (case index other k of Some v \<Rightarrow> Some v | None \<Rightarrow> index ts k))"
    by (auto simp: TestSet_Update_def)
qed

text \<open>
  Claim C7. For each of the three registries: \<open>Register\<close> on a registered name returns an
  error and the registry as it was, and on a new name adds the mapping; \<open>Replace\<close> on an
  unregistered name returns an error and the registry as it was, and on a registered name
  rebinds it, so that the lookup returns the new value and no other name changes;
  \<open>Update\<close> succeeds and every name reads as in \<open>other\<close> when \<open>other\<close> has it, and as before
  otherwise. The registry written to is an allocated map.
\<close>

theorem registry_discipline:
  "((FilterSet_Exists fs n \<longrightarrow> (\<exists>e. FilterSet_Register fs n f = Inr (fs, Some e)))
 \<and> (\<not> FilterSet_Exists fs n \<and> fs = Some al \<longrightarrow>
      (\<exists>al'. FilterSet_Register fs n f = Inr (Some al', None) \<and> map_of al' = (map_of al)(n \<mapsto> f)))
 \<and> (\<not> FilterSet_Exists fs n \<longrightarrow> (\<exists>e. FilterSet_Replace fs n f = Inr (fs, Some e)))
 \<and> (FilterSet_Exists fs n \<longrightarrow>
      (\<exists>al'. FilterSet_Replace fs n f = Inr (Some al', None) \<and> index (Some al') n = Some f
         \<and> (\<forall>k. k \<noteq> n \<longrightarrow> index (Some al') k = index fs k)))
 \<and> (fs = Some al \<and> distinct (map fst (entries other)) \<longrightarrow>
      (\<exists>al'. FilterSet_Update fs other = Inr (Some al')
         \<and> (\<forall>k. index (Some al') k = (case index other k of Some v \<Rightarrow> Some v | None \<Rightarrow> index fs k)))))
 \<and> ((StatementSet_Exists ss n2 \<longrightarrow> (\<exists>e. StatementSet_Register ss n2 f2 = Inr (ss, Some e)))
 \<and> (\<not> StatementSet_Exists ss n2 \<and> ss = Some al2 \<longrightarrow>
      (\<exists>al'. StatementSet_Register ss n2 f2 = Inr (Some al', None) \<and> map_of al' = (map_of al2)(n2 \<mapsto> f2)))
 \<and> (\<not> StatementSet_Exists ss n2 \<longrightarrow> (\<exists>e. StatementSet_Replace ss n2 f2 = Inr (ss, Some e)))
 \<and> (StatementSet_Exists ss n2 \<longrightarrow>
      (\<exists>al'. StatementSet_Replace ss n2 f2 = Inr (Some al', None) \<and> index (Some al') n2 = Some f2
         \<and> (\<forall>k. k \<noteq> n2 \<longrightarrow> index (Some al') k = index ss k)))
 \<and> (ss = Some al2 \<and> distinct (map fst (entries other2)) \<longrightarrow>
      (\<exists>al'. StatementSet_Update ss other2 = Inr (Some al')
         \<and> (\<forall>k. index (Some al') k = (case index other2 k of Some v \<Rightarrow> Some v | None \<Rightarrow> index ss k)))))
 \<and> ((TestSet_Exists ts n3 \<longrightarrow> (\<exists>e. TestSet_Register ts n3 f3 = Inr (ts, Some e)))
 \<and> (\<not> TestSet_Exists ts n3 \<and> ts = Some al3 \<longrightarrow>
      (\<exists>al'. TestSet_Register ts n3 f3 = Inr (Some al', None) \<and> map_of al' = (map_of al3)(n3 \<mapsto> f3)))
 \<and> (\<not> TestSet_Exists ts n3 \<longrightarrow> (\<exists>e. TestSet_Replace ts n3 f3 = Inr (ts, Some e)))
 \<and> (TestSet_Exists ts n3 \<longrightarrow>
      (\<exists>al'. TestSet_Replace ts n3 f3 = Inr (Some al', None) \<and> index (Some al') n3 = Some f3
         \<and> (\<forall>k. k \<noteq> n3 \<longrightarrow> index (Some al') k = index ts k)))
 \<and> (ts = Some al3 \<and> distinct (map fst (entries other3)) \<longrightarrow>
      (\<exists>al'. TestSet_Update ts other3 = Inr (Some al')
         \<and> (\<forall>k. index (Some al') k = (case index other3 k of Some v \<Rightarrow> Some v | None \<Rightarrow> index ts k)))))"
  using FilterSet_discipline [of fs n f al other]
    StatementSet_discipline [of ss n2 f2 al2 other2]
    TestSet_discipline [of ts n3 f3 al3 other3]
  by (rule conjI [OF _ conjI])

theorem registry_discipline_witness:
  "(FilterSet_Exists (Some [(''x'', 1::nat)]) ''x'' \<and> \<not> FilterSet_Exists (Some [(''x'', 1::nat)]) ''y''
    \<and> distinct (map fst (entries (Some [(''x'', 2::nat), (''z'', 3)])))
    \<and> (\<exists>e. FilterSet_Register (Some [(''x'', 1::nat)]) ''x'' 2 = Inr ((Some [(''x'', 1::nat)]), Some e))
    \<and> (\<exists>al'. FilterSet_Register (Some [(''x'', 1::nat)]) ''y'' 2 = Inr (Some al', None)
          \<and> map_of al' = (map_of [(''x'', 1)])(''y'' \<mapsto> 2))
    \<and> (\<exists>e. FilterSet_Replace (Some [(''x'', 1::nat)]) ''y'' 2 = Inr ((Some [(''x'', 1::nat)]), Some e))
    \<and> (\<exists>al'. FilterSet_Replace (Some [(''x'', 1::nat)]) ''x'' 2 = Inr (Some al', None) \<and> index (Some al') ''x'' = Some 2)
    \<and> (\<exists>al'. FilterSet_Update (Some [(''x'', 1::nat)]) (Some [(''x'', 2::nat), (''z'', 3)]) = Inr (Some al')
          \<and> index (Some al') ''x'' = Some 2 \<and> index (Some al') ''z'' = Some 3))
 \<and> (StatementSet_Exists (Some [(''x'', 1::nat)]) ''x'' \<and> \<not> StatementSet_Exists (Some [(''x'', 1::nat)]) ''y''
    \<and> distinct (map fst (entries (Some [(''x'', 2::nat), (''z'', 3)])))
    \<and> (\<exists>e. StatementSet_Register (Some [(''x'', 1::nat)]) ''x'' 2 = Inr ((Some [(''x'', 1::nat)]), Some e))
    \<and> (\<exists>al'. StatementSet_Register (Some [(''x'', 1::nat)]) ''y'' 2 = Inr (Some al', None)
          \<and> map_of al' = (map_of [(''x'', 1)])(''y'' \<mapsto> 2))
    \<and> (\<exists>e. StatementSet_Replace (Some [(''x'', 1::nat)]) ''y'' 2 = Inr ((Some [(''x'', 1::nat)]), Some e))
    \<and> (\<exists>al'. StatementSet_Replace (Some [(''x'', 1::nat)]) ''x'' 2 = Inr (Some al', None) \<and> index (Some al') ''x'' = Some 2)
    \<and> (\<exists>al'. StatementSet_Update (Some [(''x'', 1::nat)]) (Some [(''x'', 2::nat), (''z'', 3)]) = Inr (Some al')
          \<and> index (Some al') ''x'' = Some 2 \<and> index (Some al') ''z'' = Some 3))
 \<and> (TestSet_Exists (Some [(''x'', 1::nat)]) ''x'' \<and> \<not> TestSet_Exists (Some [(''x'', 1::nat)]) ''y''
    \<and> distinct (map fst (entries (Some [(''x'', 2::nat), (''z'', 3)])))
    \<and> (\<exists>e. TestSet_Register (Some [(''x'', 1::nat)]) ''x'' 2 = Inr ((Some [(''x'', 1::nat)]), Some e))
    \<and> (\<exists>al'. TestSet_Register (Some [(''x'', 1::nat)]) ''y'' 2 = Inr (Some al', None)
          \<and> map_of al' = (map_of [(''x'', 1)])(''y'' \<mapsto> 2))
    \<and> (\<exists>e. TestSet_Replace (Some [(''x'', 1::nat)]) ''y'' 2 = Inr ((Some [(''x'', 1::nat)]), Some e))
    \<and> (\<exists>al'. TestSet_Replace (Some [(''x'', 1::nat)]) ''x'' 2 = Inr (Some al', None) \<and> index (Some al') ''x'' = Some 2)
    \<and> (\<exists>al'. TestSet_Update (Some [(''x'', 1::nat)]) (Some [(''x'', 2::nat), (''z'', 3)]) = Inr (Some al')
          \<and> index (Some al') ''x'' = Some 2 \<and> index (Some al') ''z'' = Some 3))"
proof -
  have ox: "index (Some [(''x'', 2::nat), (''z'', 3)]) ''x'' = Some 2" "index (Some [(''x'', 2::nat), (''z'', 3)]) ''z'' = Some 3"
    and d: "distinct (map fst (entries (Some [(''x'', 2::nat), (''z'', 3)])))"
    by (simp_all add: index_def entries_def)
  note X = registry_discipline [of "Some [(''x'', 1::nat)]" "''x''" 2 "[(''x'', 1)]" "Some [(''x'', 2::nat), (''z'', 3)]"
      "Some [(''x'', 1::nat)]" "''x''" 2 "[(''x'', 1)]" "Some [(''x'', 2::nat), (''z'', 3)]"
      "Some [(''x'', 1::nat)]" "''x''" 2 "[(''x'', 1)]" "Some [(''x'', 2::nat), (''z'', 3)]"]
  note Y = registry_discipline [of "Some [(''x'', 1::nat)]" "''y''" 2 "[(''x'', 1)]" "Some [(''x'', 2::nat), (''z'', 3)]"
      "Some [(''x'', 1::nat)]" "''y''" 2 "[(''x'', 1)]" "Some [(''x'', 2::nat), (''z'', 3)]"
      "Some [(''x'', 1::nat)]" "''y''" 2 "[(''x'', 1)]" "Some [(''x'', 2::nat), (''z'', 3)]"]
  have Fe1: "FilterSet_Exists (Some [(''x'', 1::nat)]) ''x''" and Fe2: "\<not> FilterSet_Exists (Some [(''x'', 1::nat)]) ''y''"
    by (simp_all add: FilterSet_Exists_def index_def)
  note Fx = X [THEN conjunct1]
  note Fy = Y [THEN conjunct1]
  have F1: "\<exists>e. FilterSet_Register (Some [(''x'', 1::nat)]) ''x'' 2 = Inr ((Some [(''x'', 1::nat)]), Some e)"
    using Fx [THEN conjunct1] Fe1 by (rule mp)
  have F2: "\<exists>al'. FilterSet_Register (Some [(''x'', 1::nat)]) ''y'' 2 = Inr (Some al', None)
          \<and> map_of al' = (map_of [(''x'', 1)])(''y'' \<mapsto> 2)"
    using Fy [THEN conjunct2, THEN conjunct1] conjI [OF Fe2 refl] by (rule mp)
  have F3: "\<exists>e. FilterSet_Replace (Some [(''x'', 1::nat)]) ''y'' 2 = Inr ((Some [(''x'', 1::nat)]), Some e)"
    using Fy [THEN conjunct2, THEN conjunct2, THEN conjunct1] Fe2 by (rule mp)
  have F4: "\<exists>al'. FilterSet_Replace (Some [(''x'', 1::nat)]) ''x'' 2 = Inr (Some al', None) \<and> index (Some al') ''x'' = Some 2"
    using mp [OF Fx [THEN conjunct2, THEN conjunct2, THEN conjunct2, THEN conjunct1] Fe1]
    by blast
  from mp [OF Fx [THEN conjunct2, THEN conjunct2, THEN conjunct2, THEN conjunct2] conjI [OF refl d]]
  obtain al' where Fu: "FilterSet_Update (Some [(''x'', 1::nat)]) (Some [(''x'', 2::nat), (''z'', 3)]) = Inr (Some al')"
    "\<forall>k. index (Some al') k =
       (case index (Some [(''x'', 2::nat), (''z'', 3)]) k of Some v \<Rightarrow> Some v | None \<Rightarrow> index (Some [(''x'', 1::nat)]) k)"
    by blast
  have "index (Some al') ''x'' = Some 2" "index (Some al') ''z'' = Some 3"
    by (simp_all add: Fu(2) ox)
  with Fu(1) have F5: "\<exists>al'. FilterSet_Update (Some [(''x'', 1::nat)]) (Some [(''x'', 2::nat), (''z'', 3)]) = Inr (Some al')
          \<and> index (Some al') ''x'' = Some 2 \<and> index (Some al') ''z'' = Some 3"
    by blast
  note F = conjI [OF Fe1 conjI [OF Fe2 conjI [OF d conjI [OF F1 conjI [OF F2 conjI [OF F3 conjI [OF F4 F5]]]]]]]
  have Se1: "StatementSet_Exists (Some [(''x'', 1::nat)]) ''x''" and Se2: "\<not> StatementSet_Exists (Some [(''x'', 1::nat)]) ''y''"
    by (simp_all add: StatementSet_Exists_def index_def)
  note Sx = X [THEN conjunct2, THEN conjunct1]
  note Sy = Y [THEN conjunct2, THEN conjunct1]
  have S1: "\<exists>e. StatementSet_Register (Some [(''x'', 1::nat)]) ''x'' 2 = Inr ((Some [(''x'', 1::nat)]), Some e)"
    using Sx [THEN conjunct1] Se1 by (rule mp)
  have S2: "\<exists>al'. StatementSet_Register (Some [(''x'', 1::nat)]) ''y'' 2 = Inr (Some al', None)
          \<and> map_of al' = (map_of [(''x'', 1)])(''y'' \<mapsto> 2)"
    using Sy [THEN conjunct2, THEN conjunct1] conjI [OF Se2 refl] by (rule mp)
  have S3: "\<exists>e. StatementSet_Replace (Some [(''x'', 1::nat)]) ''y'' 2 = Inr ((Some [(''x'', 1::nat)]), Some e)"
    using Sy [THEN conjunct2, THEN conjunct2, THEN conjunct1] Se2 by (rule mp)
  have S4: "\<exists>al'. StatementSet_Replace (Some [(''x'', 1::nat)]) ''x'' 2 = Inr (Some al', None) \<and> index (Some al') ''x'' = Some 2"
    using mp [OF Sx [THEN conjunct2, THEN conjunct2, THEN conjunct2, THEN conjunct1] Se1]
    by blast
  from mp [OF Sx [THEN conjunct2, THEN conjunct2, THEN conjunct2, THEN conjunct2] conjI [OF refl d]]
  obtain al' where Su: "StatementSet_Update (Some [(''x'', 1::nat)]) (Some [(''x'', 2::nat), (''z'', 3)]) = Inr (Some al')"
    "\<forall>k. index (Some al') k =
       (case index (Some [(''x'', 2::nat), (''z'', 3)]) k of Some v \<Rightarrow> Some v | None \<Rightarrow> index (Some [(''x'', 1::nat)]) k)"
    by blast
  have "index (Some al') ''x'' = Some 2" "index (Some al') ''z'' = Some 3"
    by (simp_all add: Su(2) ox)
  with Su(1) have S5: "\<exists>al'. StatementSet_Update (Some [(''x'', 1::nat)]) (Some [(''x'', 2::nat), (''z'', 3)]) = Inr (Some al')
          \<and> index (Some al') ''x'' = Some 2 \<and> index (Some al') ''z'' = Some 3"
    by blast
  note S = conjI [OF Se1 conjI [OF Se2 conjI [OF d conjI [OF S1 conjI [OF S2 conjI [OF S3 conjI [OF S4 S5]]]]]]]
  have Te1: "TestSet_Exists (Some [(''x'', 1::nat)]) ''x''" and Te2: "\<not> TestSet_Exists (Some [(''x'', 1::nat)]) ''y''"
    by (simp_all add: TestSet_Exists_def index_def)
  note Tx = X [THEN conjunct2, THEN conjunct2]
  note Ty = Y [THEN conjunct2, THEN conjunct2]
  have T1: "\<exists>e. TestSet_Register (Some [(''x'', 1::nat)]) ''x'' 2 = Inr ((Some [(''x'', 1::nat)]), Some e)"
    using Tx [THEN conjunct1] Te1 by (rule mp)
  have T2: "\<exists>al'. TestSet_Register (Some [(''x'', 1::nat)]) ''y'' 2 = Inr (Some al', None)
          \<and> map_of al' = (map_of [(''x'', 1)])(''y'' \<mapsto> 2)"
    using Ty [THEN conjunct2, THEN conjunct1] conjI [OF Te2 refl] by (rule mp)
  have T3: "\<exists>e. TestSet_Replace (Some [(''x'', 1::nat)]) ''y'' 2 = Inr ((Some [(''x'', 1::nat)]), Some e)"
    using Ty [THEN conjunct2, THEN conjunct2, THEN conjunct1] Te2 by (rule mp)
  have T4: "\<exists>al'. TestSet_Replace (Some [(''x'', 1::nat)]) ''x'' 2 = Inr (Some al', None) \<and> index (Some al') ''x'' = Some 2"
    using mp [OF Tx [THEN conjunct2, THEN conjunct2, THEN conjunct2, THEN conjunct1] Te1]
    by blast
  from mp [OF Tx [THEN conjunct2, THEN conjunct2, THEN conjunct2, THEN conjunct2] conjI [OF refl d]]
  obtain al' where Tu: "TestSet_Update (Some [(''x'', 1::nat)]) (Some [(''x'', 2::nat), (''z'', 3)]) = Inr (Some al')"
    "\<forall>k. index (Some al') k =
       (case index (Some [(''x'', 2::nat), (''z'', 3)]) k of Some v \<Rightarrow> Some v | None \<Rightarrow> index (Some [(''x'', 1::nat)]) k)"
    by blast
  have "index (Some al') ''x'' = Some 2" "index (Some al') ''z'' = Some 3"
    by (simp_all add: Tu(2) ox)
  with Tu(1) have T5: "\<exists>al'. TestSet_Update (Some [(''x'', 1::nat)]) (Some [(''x'', 2::nat), (''z'', 3)]) = Inr (Some al')
          \<and> index (Some al') ''x'' = Some 2 \<and> index (Some al') ''z'' = Some 3"
    by blast
  note T = conjI [OF Te1 conjI [OF Te2 conjI [OF d conjI [OF T1 conjI [OF T2 conjI [OF T3 conjI [OF T4 T5]]]]]]]
  show ?thesis
    by (rule conjI [OF F conjI [OF S T]])
qed

section \<open>Properties of the renderer\<close>

text \<open>
  Claim C2. On an Output node with a condition: when the condition evaluates to an error
  value, \<open>Visit\<close> writes nothing and returns that value wrapped with the format
  \<open>Unable to render condition at line %d: %s\<close>, filled with the line and the text of the
  condition; when it evaluates to a value that is no error and is nil or not true, and
  the node has no alternative, \<open>Visit\<close> returns no error and leaves the store, the sink
  included, as it was.
\<close>

theorem Visit_Output_condition:
  "(IsError (Eval d s r c) \<longrightarrow>
      Visit d s r (OutputNode e (Some c) alt) =
        Inr (s, None, Some (Wrapf (ValueError (Eval d s r c))
                              ''Unable to render condition at line %d: %s''
                              [AInt (Line d c), AStr (Text d c)])))
 \<and> (\<not> IsError (Eval d s r c) \<and> (IsNil (Eval d s r c) \<or> \<not> IsTrue (Eval d s r c)) \<longrightarrow>
      Visit d s r (OutputNode e (Some c) None) = Inr (s, None, None))"
  by (simp add: Output_value_def Let_def)

theorem Visit_Output_condition_witness:
  "IsError (Eval deps_ex store_r renderer_ex 0)
 \<and> Visit deps_ex store_r renderer_ex (OutputNode 1 (Some 0) (Some 3)) =
      Inr (store_r, None, Some (Wrapf (ValueError (value_ex 0))
                                  ''Unable to render condition at line %d: %s''
                                  [AInt 1, AStr ''expr'']))
 \<and> \<not> IsError (Eval deps_ex store_r renderer_ex 2)
 \<and> (IsNil (Eval deps_ex store_r renderer_ex 2) \<or> \<not> IsTrue (Eval deps_ex store_r renderer_ex 2))
 \<and> Visit deps_ex store_r renderer_ex (OutputNode 1 (Some 2) None) = Inr (store_r, None, None)"
  using Visit_Output_condition [of deps_ex store_r renderer_ex 0 1 "Some 3"]
    Visit_Output_condition [of deps_ex store_r renderer_ex 2 1 "Some 3"]
  by (simp add: deps_ex_def value_ex_def)

text \<open>
  Claim C3. When the expression chosen on an Output node evaluates to a value \<open>v\<close> that is
  no error, \<open>Visit\<close> returns no error and appends to the sink \<open>Escaped v\<close> if the
  configuration has \<open>AutoEscape\<close>, \<open>v\<close> is a string and \<open>v\<close> is not safe, and \<open>String v\<close>
  in every other case. The chosen expression is the primary one without a condition or
  under a true condition, and the alternative under a nil or untrue one.
\<close>

theorem Visit_Output_autoescape:
  "(Output_value d s r e cond alt = Inr (Some v) \<and> \<not> IsError v \<longrightarrow>
      Visit d s r (OutputNode e cond alt) =
        Inr (s\<lparr>outs := (outs s)(Output r := outs s (Output r) @
                (if AutoEscape (cfgs s (Config r)) \<and> IsString v \<and> \<not> Safe v
                 then Escaped v else String v))\<rparr>, None, None))
 \<and> (cond = None \<longrightarrow> Output_value d s r e cond alt = Inr (Some (Eval d s r e)))
 \<and> (\<forall>c. cond = Some c \<and> \<not> IsError (Eval d s r c) \<and> \<not> IsNil (Eval d s r c) \<and> IsTrue (Eval d s r c) \<longrightarrow>
        Output_value d s r e cond alt = Inr (Some (Eval d s r e)))
 \<and> (\<forall>c a. cond = Some c \<and> \<not> IsError (Eval d s r c) \<and> (IsNil (Eval d s r c) \<or> \<not> IsTrue (Eval d s r c))
          \<and> alt = Some a \<longrightarrow>
        Output_value d s r e cond alt = Inr (Some (Eval d s r a)))"
  by (auto simp: Output_value_def Let_def WriteString_def)

theorem Visit_Output_autoescape_witness:
  "Output_value deps_ex store_r renderer_ex 1 None None = Inr (Some (value_ex 1))
 \<and> \<not> IsError (value_ex 1)
 \<and> Visit deps_ex store_r renderer_ex (OutputNode 1 None None) =
      Inr (store_r\<lparr>outs := (outs store_r)(0 := ''&lt;b&gt;'')\<rparr>, None, None)
 \<and> Output_value deps_ex store_r renderer_ex 3 None None = Inr (Some (value_ex 3))
 \<and> \<not> IsError (value_ex 3)
 \<and> Visit deps_ex store_r renderer_ex (OutputNode 3 None None) =
      Inr (store_r\<lparr>outs := (outs store_r)(0 := ''<b>'')\<rparr>, None, None)
 \<and> Output_value deps_ex store_r renderer_ex 1 (Some 2) (Some 3) = Inr (Some (value_ex 3))
 \<and> Output_value deps_ex store_r renderer_ex 1 (Some 3) (Some 2) = Inr (Some (value_ex 1))"
proof -
  have a: "Output_value deps_ex store_r renderer_ex 1 None None = Inr (Some (value_ex 1))"
    and b: "Output_value deps_ex store_r renderer_ex 3 None None = Inr (Some (value_ex 3))"
    by (simp_all add: Output_value_def deps_ex_def)
  have c: "\<not> IsError (value_ex 1)" "\<not> IsError (value_ex 3)" by (simp_all add: value_ex_def)
  have v1: "Visit deps_ex store_r renderer_ex (OutputNode 1 None None) =
      Inr (store_r\<lparr>outs := (outs store_r)(0 := ''&lt;b&gt;'')\<rparr>, None, None)"
    using Visit_Output_autoescape [of deps_ex store_r renderer_ex 1 None None "value_ex 1"] a c(1)
    by (simp add: value_ex_def store_r_def renderer_ex_def)
  have v3: "Visit deps_ex store_r renderer_ex (OutputNode 3 None None) =
      Inr (store_r\<lparr>outs := (outs store_r)(0 := ''<b>'')\<rparr>, None, None)"
    using Visit_Output_autoescape [of deps_ex store_r renderer_ex 3 None None "value_ex 3"] b c(2)
    by (simp add: value_ex_def store_r_def renderer_ex_def)
  have alt: "Output_value deps_ex store_r renderer_ex 1 (Some 2) (Some 3) = Inr (Some (value_ex 3))"
    using Visit_Output_autoescape [of deps_ex store_r renderer_ex 1 "Some 2" "Some 3" "value_ex 3"]
    by (simp add: deps_ex_def value_ex_def)
  have pri: "Output_value deps_ex store_r renderer_ex 1 (Some 3) (Some 2) = Inr (Some (value_ex 1))"
    using Visit_Output_autoescape [of deps_ex store_r renderer_ex 1 "Some 3" "Some 2" "value_ex 1"]
    by (simp add: deps_ex_def value_ex_def)
  from a b c v1 v3 alt pri show ?thesis by simp
qed

text \<open>
  Claim C9. \<open>r.Inherit()\<close> returns a renderer whose configuration is a new object with the
  settings of the configuration of \<open>r\<close>, so that writing it leaves that of \<open>r\<close> as it was;
  whose context is the one \<open>Context.Inherit\<close> makes from the context of \<open>r\<close>, new, empty
  and with that context as parent; and whose three registries, sink, template, root node
  and loader are the references \<open>r\<close> holds. No object that existed before is written.
\<close>

theorem Renderer_Inherit_shares:
  assumes "Config r < next_cfg s" and "Environment r < next_env s"
  shows "\<exists>sub s'. Renderer_Inherit s r = (sub, s')
       \<and> Config sub = next_cfg s \<and> Config sub \<noteq> Config r
       \<and> cfgs s' (Config sub) = cfgs s (Config r)
       \<and> (\<forall>c. c \<noteq> Config sub \<longrightarrow> cfgs s' c = cfgs s c)
       \<and> (\<forall>v. ((cfgs s')(Config sub := v)) (Config r) = cfgs s (Config r))
       \<and> Context (envs s' (Environment sub)) =
            fst (Context_Inherit (snd (Config_Inherit s (Config r))) (Context (envs s (Environment r))))
       \<and> Context (envs s' (Environment sub)) = next_ctx s
       \<and> parent (ctxs s' (Context (envs s' (Environment sub)))) = Some (Context (envs s (Environment r)))
       \<and> frame s' (Context (envs s' (Environment sub))) = Some []
       \<and> data (ctxs s' (Context (envs s' (Environment sub)))) = Some (next_map s)
       \<and> (\<forall>c < next_ctx s. ctxs s' c = ctxs s c)
       \<and> (\<forall>m < next_map s. maps s' m = maps s m)
       \<and> Filters (envs s' (Environment sub)) = Filters (envs s (Environment r))
       \<and> Statements (envs s' (Environment sub)) = Statements (envs s (Environment r))
       \<and> Tests (envs s' (Environment sub)) = Tests (envs s (Environment r))
       \<and> Output sub = Output r \<and> Template sub = Template r
       \<and> RootNode sub = RootNode r \<and> Loader sub = Loader r
       \<and> envs s' (Environment r) = envs s (Environment r)
       \<and> (\<forall>e < next_env s. envs s' e = envs s e)
       \<and> outs s' = outs s"
  using assms
  by (simp add: Renderer_Inherit_def Config_Inherit_def Context_Inherit_def frame_def)

theorem Renderer_Inherit_shares_witness:
  "Config renderer_ex < next_cfg store_r \<and> Environment renderer_ex < next_env store_r
 \<and> (\<exists>sub s'. Renderer_Inherit store_r renderer_ex = (sub, s')
       \<and> Config sub = 1 \<and> cfgs s' (Config sub) = \<lparr>AutoEscape = True\<rparr>
       \<and> ((cfgs s')(Config sub := \<lparr>AutoEscape = False\<rparr>)) (Config renderer_ex) = \<lparr>AutoEscape = True\<rparr>
       \<and> Context (envs s' (Environment sub)) = 1
       \<and> parent (ctxs s' 1) = Some 0
       \<and> Filters (envs s' (Environment sub)) = Some 0
       \<and> Output sub = 0 \<and> Loader sub = 0)"
proof -
  have h: "Config renderer_ex < next_cfg store_r" "Environment renderer_ex < next_env store_r"
    by (simp_all add: renderer_ex_def store_r_def)
  have v: "cfgs store_r (Config renderer_ex) = \<lparr>AutoEscape = True\<rparr>" "next_cfg store_r = 1"
    "next_ctx store_r = 1" "Context (envs store_r (Environment renderer_ex)) = 0"
    "Filters (envs store_r (Environment renderer_ex)) = Some 0"
    "Output renderer_ex = 0" "Loader renderer_ex = 0"
    by (simp_all add: renderer_ex_def store_r_def)
  from Renderer_Inherit_shares [OF h] obtain sub s' where
    i: "Renderer_Inherit store_r renderer_ex = (sub, s')"
    and c1: "Config sub = next_cfg store_r"
    and c2: "cfgs s' (Config sub) = cfgs store_r (Config renderer_ex)"
    and c3: "\<forall>v. ((cfgs s')(Config sub := v)) (Config renderer_ex) = cfgs store_r (Config renderer_ex)"
    and x1: "Context (envs s' (Environment sub)) = next_ctx store_r"
    and x2: "parent (ctxs s' (Context (envs s' (Environment sub)))) =
               Some (Context (envs store_r (Environment renderer_ex)))"
    and f: "Filters (envs s' (Environment sub)) = Filters (envs store_r (Environment renderer_ex))"
    and o: "Output sub = Output renderer_ex" and l: "Loader sub = Loader renderer_ex"
    by blast
  have "Config sub = 1" using c1 v by simp
  moreover have "cfgs s' (Config sub) = \<lparr>AutoEscape = True\<rparr>" using c2 v by simp
  moreover have "((cfgs s')(Config sub := \<lparr>AutoEscape = False\<rparr>)) (Config renderer_ex) = \<lparr>AutoEscape = True\<rparr>"
    using c3 v(1) by simp
  moreover have "Context (envs s' (Environment sub)) = 1" using x1 v by simp
  moreover have "parent (ctxs s' 1) = Some 0" using x2 x1 v by simp
  moreover have "Filters (envs s' (Environment sub)) = Some 0" using f v by simp
  moreover have "Output sub = 0" "Loader sub = 0" using o l v by simp_all
  ultimately show ?thesis using h i by blast
qed

text \<open>
  Claim C10. \<open>NewRenderer\<close> writes the environment it is given: when the context of that
  environment has a map, the call returns a renderer \<open>r\<close> on that environment, and
  afterwards the context binds \<open>self\<close> to \<open>Self(r)\<close> and every other name as before.
\<close>

theorem NewRenderer_binds_self:
  assumes "data (ctxs s (Context (envs s environment))) = Some m"
  shows "\<exists>r s'. NewRenderer d s environment output config loader template = Inr (r, s')
       \<and> Environment r = environment \<and> Output r = output \<and> Loader r = loader
       \<and> Template r = template \<and> RootNode r = root d template
       \<and> Context (envs s' environment) = Context (envs s environment)
       \<and> index (frame s' (Context (envs s environment))) ''self'' = Some (Self d r)
       \<and> Context_Get s' (Context (envs s environment)) ''self'' = Some (Self d r, True)
       \<and> Context_Has s' (Context (envs s environment)) ''self'' = Some True
       \<and> (\<forall>name. name \<noteq> ''self'' \<longrightarrow>
             index (frame s' (Context (envs s environment))) name =
             index (frame s (Context (envs s environment))) name)
       \<and> ctxs s' = ctxs s \<and> envs s' = envs s \<and> outs s' = outs s
       \<and> (\<forall>m'. m' \<noteq> m \<longrightarrow> maps s' m' = maps s m')"
proof -
  let ?ctx = "Context (envs s environment)"
  define s1 where "s1 = snd (Config_Inherit s config)"
  define r where "r = \<lparr>Config = next_cfg s, Environment = environment, Loader = loader,
                    Template = template, RootNode = root d template, Output = output\<rparr>"
  define s' where "s' = s1\<lparr>maps := (maps s1)(m := AList.update ''self'' (Self d r) (maps s1 m))\<rparr>"
  have c1: "Config_Inherit s config = (next_cfg s, s1)"
    by (simp add: s1_def Config_Inherit_def)
  have same: "ctxs s1 = ctxs s" "envs s1 = envs s" "maps s1 = maps s" "outs s1 = outs s"
    by (simp_all add: s1_def Config_Inherit_def)
  have d1: "data (ctxs s1 (Context (envs s1 environment))) = Some m"
    using assms by (simp add: same)
  have new: "NewRenderer d s environment output config loader template = Inr (r, s')"
    by (simp add: NewRenderer_def c1 Let_def r_def [symmetric] Set_result [OF d1] s'_def)
  have s'_same: "ctxs s' = ctxs s" "envs s' = envs s" "outs s' = outs s"
    by (simp_all add: s'_def same)
  have others: "\<forall>m'. m' \<noteq> m \<longrightarrow> maps s' m' = maps s m'"
    by (simp add: s'_def same)
  have fr: "\<And>name. index (frame s' ?ctx) name =
      ((map_of (maps s m))(''self'' \<mapsto> Self d r)) name"
    using assms by (simp add: frame_def index_def s'_same s'_def same update_conv')
  have fr0: "\<And>name. index (frame s ?ctx) name = map_of (maps s m) name"
    using assms by (simp add: frame_def index_def)
  have self: "index (frame s' ?ctx) ''self'' = Some (Self d r)" by (simp add: fr)
  have rest: "\<forall>name. name \<noteq> ''self'' \<longrightarrow> index (frame s' ?ctx) name = index (frame s ?ctx) name"
    by (simp add: fr fr0)
  have flds: "Environment r = environment" "Output r = output" "Loader r = loader"
    "Template r = template" "RootNode r = root d template"
    by (simp_all add: r_def)
  from new flds self Get_local [OF self] Has_local [OF self] rest s'_same others
  show ?thesis by (intro exI [of _ r] exI [of _ s']) simp
qed

theorem NewRenderer_binds_self_witness:
  "data (ctxs store_upd (Context (envs store_upd 0))) = Some 0
 \<and> (\<exists>r s'. NewRenderer deps_ex store_upd 0 0 0 0 0 = Inr (r, s')
       \<and> Context_Get s' 0 ''self'' = Some (IData 0, True)
       \<and> index (frame s' 0) ''y'' = Some (IData 5))"
proof -
  have h: "data (ctxs store_upd (Context (envs store_upd 0))) = Some 0"
    and c: "Context (envs store_upd 0) = 0"
    and y: "index (frame store_upd 0) ''y'' = Some (IData 5)"
    and sf: "\<And>r. Self deps_ex r = IData 0"
    by (simp_all add: store_upd_def frame_def index_def deps_ex_def)
  from NewRenderer_binds_self [OF h, of deps_ex 0 0 0 0] obtain r s' where
    n: "NewRenderer deps_ex store_upd 0 0 0 0 0 = Inr (r, s')"
    and g: "Context_Get s' (Context (envs store_upd 0)) ''self'' = Some (Self deps_ex r, True)"
    and o: "\<forall>name. name \<noteq> ''self'' \<longrightarrow>
             index (frame s' (Context (envs store_upd 0))) name =
             index (frame store_upd (Context (envs store_upd 0))) name"
    by blast
  from g have g': "Context_Get s' 0 ''self'' = Some (IData 0, True)" by (simp add: c sf)
  from o y have y': "index (frame s' 0) ''y'' = Some (IData 5)" by (simp add: c)
  from h n g' y' show ?thesis by blast
qed

section \<open>Properties of the import statements\<close>

lemma From_range_result:
  assumes "FromImportStmt_range d s r imported al = Inr (s', err)"
  shows "\<exists>seen rest. al = seen @ rest
       \<and> (err = None \<longrightarrow> rest = [])
       \<and> (\<forall>e. err = Some e \<longrightarrow>
            (\<exists>alias name rest' x. rest = (alias, name) # rest'
               \<and> e = Wrapf x import_macro_format [AStr name]))
       \<and> frame_only s s' (Context (envs s (Environment r)))
       \<and> (\<forall>x. x \<notin> fst ` set seen \<longrightarrow>
             index (frame s' (Context (envs s (Environment r)))) x =
             index (frame s (Context (envs s (Environment r)))) x)
       \<and> (distinct (map fst al) \<longrightarrow>
             (\<forall>(a, n) \<in> set seen. \<exists>fn s0.
                 frame_only s s0 (Context (envs s (Environment r)))
               \<and> MacroNodeToFunc d s0 (case map_of imported n of None \<Rightarrow> None | Some k \<Rightarrow> k) r = Inr fn
               \<and> index (frame s' (Context (envs s (Environment r)))) a = Some (IMacro fn)))"
  using assms
proof (induction al arbitrary: s)
  case Nil
  then have "s' = s" "err = None" by simp_all
  then show ?case by (simp add: frame_only_refl)
next
  case (Cons an al)
  obtain a0 name where an: "an = (a0, name)" by (cases an)
  let ?ctx = "Context (envs s (Environment r))"
  let ?node = "case map_of imported name of None \<Rightarrow> None | Some k \<Rightarrow> k"
  show ?case
  proof (cases "MacroNodeToFunc d s ?node r")
    case (Inl x)
    with Cons.prems have "s' = s" "err = Some (Wrapf x import_macro_format [AStr name])"
      by (simp_all add: an)
    then have "an # al = [] @ an # al \<and> (err = None \<longrightarrow> an # al = [])
       \<and> (\<forall>e. err = Some e \<longrightarrow>
            (\<exists>alias name rest' x. an # al = (alias, name) # rest'
               \<and> e = Wrapf x import_macro_format [AStr name]))
       \<and> frame_only s s' ?ctx
       \<and> (\<forall>x. x \<notin> fst ` set [] \<longrightarrow> index (frame s' ?ctx) x = index (frame s ?ctx) x)
       \<and> (distinct (map fst (an # al)) \<longrightarrow>
             (\<forall>(a, n) \<in> set []. \<exists>fn s0. frame_only s s0 ?ctx
               \<and> MacroNodeToFunc d s0 (case map_of imported n of None \<Rightarrow> None | Some k \<Rightarrow> k) r = Inr fn
               \<and> index (frame s' ?ctx) a = Some (IMacro fn)))"
      by (simp add: an frame_only_refl)
    then show ?thesis by blast
  next
    case (Inr fn)
    show ?thesis
    proof (cases "Context_Set s ?ctx a0 (IMacro fn)")
      case (Inl p)
      with Inr Cons.prems show ?thesis by (simp add: an)
    next
      case set: (Inr s1)
      from Inr set Cons.prems have run: "FromImportStmt_range d s1 r imported al = Inr (s', err)"
        by (simp add: an)
      have fo1: "frame_only s s1 ?ctx" using set by (rule frame_only_Set)
      then have env1: "Context (envs s1 (Environment r)) = ?ctx" by (simp add: frame_only_def)
      from Cons.IH [OF run] obtain seen rest where
        al: "al = seen @ rest"
        and n: "err = None \<longrightarrow> rest = []"
        and e: "\<forall>e. err = Some e \<longrightarrow>
            (\<exists>alias name rest' x. rest = (alias, name) # rest'
               \<and> e = Wrapf x import_macro_format [AStr name])"
        and fo2: "frame_only s1 s' ?ctx"
        and un: "\<forall>x. x \<notin> fst ` set seen \<longrightarrow> index (frame s' ?ctx) x = index (frame s1 ?ctx) x"
        and bd: "distinct (map fst al) \<longrightarrow>
             (\<forall>(a, n) \<in> set seen. \<exists>fn s0. frame_only s1 s0 ?ctx
               \<and> MacroNodeToFunc d s0 (case map_of imported n of None \<Rightarrow> None | Some k \<Rightarrow> k) r = Inr fn
               \<and> index (frame s' ?ctx) a = Some (IMacro fn))"
        unfolding env1 by blast
      have A: "an # al = (an # seen) @ rest" by (simp add: al)
      have F: "frame_only s s' ?ctx" using fo1 fo2 by (rule frame_only_trans)
      have U: "\<forall>x. x \<notin> fst ` set (an # seen) \<longrightarrow> index (frame s' ?ctx) x = index (frame s ?ctx) x"
      proof (intro allI impI)
        fix x assume "x \<notin> fst ` set (an # seen)"
        then have "x \<noteq> a0" "x \<notin> fst ` set seen" by (simp_all add: an)
        with un Set_index [OF set, of x] show "index (frame s' ?ctx) x = index (frame s ?ctx) x"
          by simp
      qed
      have B: "distinct (map fst (an # al)) \<longrightarrow>
             (\<forall>(a, n) \<in> set (an # seen). \<exists>fn s0. frame_only s s0 ?ctx
               \<and> MacroNodeToFunc d s0 (case map_of imported n of None \<Rightarrow> None | Some k \<Rightarrow> k) r = Inr fn
               \<and> index (frame s' ?ctx) a = Some (IMacro fn))"
      proof (intro impI ballI)
        fix p assume dist: "distinct (map fst (an # al))" and p: "p \<in> set (an # seen)"
        obtain a n where pa: "p = (a, n)" by (cases p)
        from dist have d1: "distinct (map fst al)" and notin: "a0 \<notin> fst ` set seen"
          by (auto simp: an al)
        show "case p of (a, n) \<Rightarrow> \<exists>fn s0. frame_only s s0 ?ctx
               \<and> MacroNodeToFunc d s0 (case map_of imported n of None \<Rightarrow> None | Some k \<Rightarrow> k) r = Inr fn
               \<and> index (frame s' ?ctx) a = Some (IMacro fn)"
        proof (cases "p = an")
          case True
          from un notin have "index (frame s' ?ctx) a0 = index (frame s1 ?ctx) a0" by simp
          also have "\<dots> = Some (IMacro fn)" using Set_index [OF set, of a0] by simp
          finally have "index (frame s' ?ctx) a0 = Some (IMacro fn)" .
          with Inr frame_only_refl [of s ?ctx] True show ?thesis
            by (auto simp: an)
        next
          case False
          with p have "p \<in> set seen" by simp
          with bd d1 pa obtain fn' s0 where
            s0: "frame_only s1 s0 ?ctx"
              "MacroNodeToFunc d s0 (case map_of imported n of None \<Rightarrow> None | Some k \<Rightarrow> k) r = Inr fn'"
              "index (frame s' ?ctx) a = Some (IMacro fn')"
            by blast
          from frame_only_trans [OF fo1 s0(1)] s0(2,3) show ?thesis
            by (auto simp: pa)
        qed
      qed
      from A n e F U B show ?thesis by blast
    qed
  qed
qed

lemma Import_range_result:
  assumes "ImportStmt_range d s r ms acc = Inr macros"
  shows "dom (map_of macros) = dom (map_of acc) \<union> fst ` set ms
       \<and> (\<forall>x. x \<notin> fst ` set ms \<longrightarrow> map_of macros x = map_of acc x)
       \<and> (distinct (map fst ms) \<longrightarrow>
            (\<forall>(name, node) \<in> set ms. \<exists>fn. MacroNodeToFunc d s node r = Inr fn
                                        \<and> map_of macros name = Some fn))"
  using assms
proof (induction ms arbitrary: acc)
  case Nil
  then show ?case by simp
next
  case (Cons nm ms)
  obtain name node where nm: "nm = (name, node)" by (cases nm)
  show ?case
  proof (cases "MacroNodeToFunc d s node r")
    case (Inl x)
    with Cons.prems show ?thesis by (simp add: nm)
  next
    case (Inr fn)
    with Cons.prems have run: "ImportStmt_range d s r ms (AList.update name fn acc) = Inr macros"
      by (simp add: nm)
    from Cons.IH [OF run] have
      D: "dom (map_of macros) = dom (map_of (AList.update name fn acc)) \<union> fst ` set ms"
      and U: "\<forall>x. x \<notin> fst ` set ms \<longrightarrow> map_of macros x = map_of (AList.update name fn acc) x"
      and B: "distinct (map fst ms) \<longrightarrow>
            (\<forall>(name, node) \<in> set ms. \<exists>fn. MacroNodeToFunc d s node r = Inr fn
                                        \<and> map_of macros name = Some fn)"
      by blast+
    have D': "dom (map_of macros) = dom (map_of acc) \<union> fst ` set (nm # ms)"
      using D by (auto simp: nm update_conv')
    have U': "\<forall>x. x \<notin> fst ` set (nm # ms) \<longrightarrow> map_of macros x = map_of acc x"
      using U by (simp add: nm update_conv')
    have B': "distinct (map fst (nm # ms)) \<longrightarrow>
            (\<forall>(name, node) \<in> set (nm # ms). \<exists>fn. MacroNodeToFunc d s node r = Inr fn
                                        \<and> map_of macros name = Some fn)"
    proof
      assume dist: "distinct (map fst (nm # ms))"
      then have "name \<notin> fst ` set ms" and "distinct (map fst ms)" by (simp_all add: nm)
      with U B have "map_of macros name = Some fn"
        and "\<forall>(name, node) \<in> set ms. \<exists>fn. MacroNodeToFunc d s node r = Inr fn
                                        \<and> map_of macros name = Some fn"
        by (simp_all add: update_conv')
      with Inr show "\<forall>(name, node) \<in> set (nm # ms). \<exists>fn. MacroNodeToFunc d s node r = Inr fn
                                        \<and> map_of macros name = Some fn"
        by (simp add: nm)
    qed
    from D' U' B' show ?thesis by blast
  qed
qed

lemma From_range_success:
  assumes "FromImportStmt_range d s r imported al = Inr (s', None)"
  shows "frame_only s s' (Context (envs s (Environment r)))
       \<and> (\<forall>x. x \<notin> fst ` set al \<longrightarrow>
             index (frame s' (Context (envs s (Environment r)))) x =
             index (frame s (Context (envs s (Environment r)))) x)
       \<and> (distinct (map fst al) \<longrightarrow>
             (\<forall>(a, n) \<in> set al. \<exists>fn s0.
                 frame_only s s0 (Context (envs s (Environment r)))
               \<and> MacroNodeToFunc d s0 (case map_of imported n of None \<Rightarrow> None | Some k \<Rightarrow> k) r = Inr fn
               \<and> index (frame s' (Context (envs s (Environment r)))) a = Some (IMacro fn)))"
proof -
  let ?ctx = "Context (envs s (Environment r))"
  let ?P = "\<lambda>seen rest. al = seen @ rest
       \<and> (None = (None :: error option) \<longrightarrow> rest = [])
       \<and> (\<forall>e'. None = Some e' \<longrightarrow>
            (\<exists>alias name rest' x. rest = (alias, name) # rest'
               \<and> e' = Wrapf x import_macro_format [AStr name]))
       \<and> frame_only s s' ?ctx
       \<and> (\<forall>x. x \<notin> fst ` set seen \<longrightarrow> index (frame s' ?ctx) x = index (frame s ?ctx) x)
       \<and> (distinct (map fst al) \<longrightarrow>
             (\<forall>(a, n) \<in> set seen. \<exists>fn s0. frame_only s s0 ?ctx
               \<and> MacroNodeToFunc d s0 (case map_of imported n of None \<Rightarrow> None | Some k \<Rightarrow> k) r = Inr fn
               \<and> index (frame s' ?ctx) a = Some (IMacro fn)))"
  from From_range_result [OF assms] obtain seen where "\<exists>rest. ?P seen rest" ..
  then obtain rest where all: "?P seen rest" ..
  from all have "rest = []" by simp
  with all have s: "seen = al" by simp
  from all have c: "frame_only s s' ?ctx" by simp
  from all have u: "\<forall>x. x \<notin> fst ` set seen \<longrightarrow> index (frame s' ?ctx) x = index (frame s ?ctx) x"
    by simp
  from all have b: "distinct (map fst al) \<longrightarrow>
             (\<forall>(a, n) \<in> set seen. \<exists>fn s0. frame_only s s0 ?ctx
               \<and> MacroNodeToFunc d s0 (case map_of imported n of None \<Rightarrow> None | Some k \<Rightarrow> k) r = Inr fn
               \<and> index (frame s' ?ctx) a = Some (IMacro fn))"
    by (elim conjE)
  from c u b show ?thesis unfolding s by (intro conjI)
qed

lemma From_Execute_cases:
  assumes "FromImportStmt_Execute d s fstmt r = Inr (s'', err)"
  shows "(s'' = s \<and> err \<noteq> None)
       \<or> (\<exists>l t. \<not> IsError (Eval d s r (FilenameExpression fstmt))
            \<and> Loader_Inherit d (Loader r) (String (Eval d s r (FilenameExpression fstmt))) = Inr l
            \<and> NewTemplate d s (String (Eval d s r (FilenameExpression fstmt))) (Config r) l (Environment r) = Inr t
            \<and> FromImportStmt_range d s r (Macros d t) (As fstmt) = Inr (s'', err))"
  using assms
  by (auto simp: FromImportStmt_Execute_def Let_def split: if_splits sum.splits)

lemma Import_Execute_cases:
  assumes "ImportStmt_Execute d s stmt r = Inr (s', err)"
  shows "(s' = s \<and> err \<noteq> None)
       \<or> (\<exists>l t macros. \<not> IsError (Eval d s r (filenameExpression stmt))
            \<and> Loader_Inherit d (Loader r) (String (Eval d s r (filenameExpression stmt))) = Inr l
            \<and> NewTemplate d s (String (Eval d s r (filenameExpression stmt))) (Config r) l (Environment r) = Inr t
            \<and> ImportStmt_range d s r (Macros d t) [] = Inr macros
            \<and> Context_Set s (Context (envs s (Environment r))) (as stmt) (IMacros macros) = Inr s'
            \<and> err = None)"
  using assms
  by (auto simp: ImportStmt_Execute_def Let_def split: if_splits sum.splits)

lemma ImportStmt_error_unchanged:
  "ImportStmt_Execute d s stmt r = Inr (s', Some e) \<Longrightarrow> s' = s"
  using Import_Execute_cases [of d s stmt r s' "Some e"] by simp

text \<open>
  Claim C1 says that an \<open>Execute\<close> that returns an error has left the local frame of the
  current context as it was at entry. \<open>ImportStmt.Execute\<close> does: it fills a table of its
  own and calls \<open>Set\<close> once, after its loop (last conjunct). \<open>FromImportStmt.Execute\<close> calls
  \<open>Set\<close> inside its loop and does not: for every wrapper, whenever wrapping succeeds for
  the first alias visited and fails for the second, \<open>Execute\<close> returns the error of the
  wrapper, wrapped with the name of the second macro, and the store it leaves has the
  first alias bound to its macro in the local frame.
\<close>

theorem FromImportStmt_partial_binding:
  assumes "\<not> IsError (Eval d s r (FilenameExpression stmt))"
    and "Loader_Inherit d (Loader r) (String (Eval d s r (FilenameExpression stmt))) = Inr l"
    and "NewTemplate d s (String (Eval d s r (FilenameExpression stmt))) (Config r) l (Environment r) = Inr t"
    and "As stmt = (a, n1) # (b, n2) # rest"
    and "data (ctxs s (Context (envs s (Environment r)))) = Some m"
    and "MacroNodeToFunc d s (case map_of (Macros d t) n1 of None \<Rightarrow> None | Some k \<Rightarrow> k) r = Inr fn"
    and "MacroNodeToFunc d (s\<lparr>maps := (maps s)(m := AList.update a (IMacro fn) (maps s m))\<rparr>)
           (case map_of (Macros d t) n2 of None \<Rightarrow> None | Some k \<Rightarrow> k) r = Inl err"
  shows "FromImportStmt_Execute d s stmt r =
           Inr (s\<lparr>maps := (maps s)(m := AList.update a (IMacro fn) (maps s m))\<rparr>,
                Some (Wrapf err import_macro_format [AStr n2]))
       \<and> index (frame (s\<lparr>maps := (maps s)(m := AList.update a (IMacro fn) (maps s m))\<rparr>)
                  (Context (envs s (Environment r)))) a = Some (IMacro fn)
       \<and> (index (frame s (Context (envs s (Environment r)))) a \<noteq> Some (IMacro fn) \<longrightarrow>
            frame (s\<lparr>maps := (maps s)(m := AList.update a (IMacro fn) (maps s m))\<rparr>)
                  (Context (envs s (Environment r))) \<noteq>
            frame s (Context (envs s (Environment r))))
       \<and> (\<forall>istmt s2 e2. ImportStmt_Execute d s istmt r = Inr (s2, Some e2) \<longrightarrow> s2 = s)"
proof -
  let ?ctx = "Context (envs s (Environment r))"
  let ?s1 = "s\<lparr>maps := (maps s)(m := AList.update a (IMacro fn) (maps s m))\<rparr>"
  have set: "Context_Set s ?ctx a (IMacro fn) = Inr ?s1"
    using assms(5) by (rule Set_result)
  have env1: "Context (envs ?s1 (Environment r)) = ?ctx" by simp
  have loop2: "FromImportStmt_range d ?s1 r (Macros d t) ((b, n2) # rest) =
      Inr (?s1, Some (Wrapf err import_macro_format [AStr n2]))"
    using assms(7) by simp
  have loop: "FromImportStmt_range d s r (Macros d t) ((a, n1) # (b, n2) # rest) =
      Inr (?s1, Some (Wrapf err import_macro_format [AStr n2]))"
    using assms(6) set loop2 by simp
  have ex: "FromImportStmt_Execute d s stmt r =
      Inr (?s1, Some (Wrapf err import_macro_format [AStr n2]))"
    using assms(1,2,3) loop by (simp add: FromImportStmt_Execute_def Let_def assms(4))
  have bound: "index (frame ?s1 ?ctx) a = Some (IMacro fn)"
    using Set_index [OF set, of a] by simp
  have changed: "index (frame s ?ctx) a \<noteq> Some (IMacro fn) \<longrightarrow> frame ?s1 ?ctx \<noteq> frame s ?ctx"
    using bound by auto
  have sib: "\<forall>istmt s2 e2. ImportStmt_Execute d s istmt r = Inr (s2, Some e2) \<longrightarrow> s2 = s"
    using ImportStmt_error_unchanged by blast
  from ex bound changed sib show ?thesis by (intro conjI)
qed

theorem FromImportStmt_partial_binding_witness:
  "\<not> IsError (Eval deps_ex store_r renderer_ex (FilenameExpression from_bad))
 \<and> Loader_Inherit deps_ex (Loader renderer_ex)
       (String (Eval deps_ex store_r renderer_ex (FilenameExpression from_bad))) = Inr 0
 \<and> NewTemplate deps_ex store_r (String (Eval deps_ex store_r renderer_ex (FilenameExpression from_bad)))
       (Config renderer_ex) 0 (Environment renderer_ex) = Inr 0
 \<and> As from_bad = [(''a'', ''foo''), (''b'', ''bar'')]
 \<and> data (ctxs store_r (Context (envs store_r (Environment renderer_ex)))) = Some 0
 \<and> FromImportStmt_Execute deps_ex store_r from_bad renderer_ex =
       Inr (store_r\<lparr>maps := (maps store_r)(0 := [(''a'', IMacro 10)])\<rparr>,
            Some (Wrapf (Failure ''bad default'') import_macro_format [AStr ''bar'']))
 \<and> frame store_r (Context (envs store_r (Environment renderer_ex))) = Some []
 \<and> frame (store_r\<lparr>maps := (maps store_r)(0 := [(''a'', IMacro 10)])\<rparr>)
       (Context (envs store_r (Environment renderer_ex))) = Some [(''a'', IMacro 10)]"
proof -
  have h1: "\<not> IsError (Eval deps_ex store_r renderer_ex (FilenameExpression from_bad))"
    and h2: "Loader_Inherit deps_ex (Loader renderer_ex)
       (String (Eval deps_ex store_r renderer_ex (FilenameExpression from_bad))) = Inr 0"
    and h3: "NewTemplate deps_ex store_r (String (Eval deps_ex store_r renderer_ex (FilenameExpression from_bad)))
       (Config renderer_ex) 0 (Environment renderer_ex) = Inr 0"
    and h4: "As from_bad = (''a'', ''foo'') # (''b'', ''bar'') # []"
    and h5: "data (ctxs store_r (Context (envs store_r (Environment renderer_ex)))) = Some 0"
    by (simp_all add: deps_ex_def value_ex_def from_bad_def store_r_def renderer_ex_def)
  have h6: "MacroNodeToFunc deps_ex store_r
      (case map_of (Macros deps_ex 0) ''foo'' of None \<Rightarrow> None | Some k \<Rightarrow> k) renderer_ex = Inr 10"
    and h7: "MacroNodeToFunc deps_ex
      (store_r\<lparr>maps := (maps store_r)(0 := AList.update ''a'' (IMacro 10) (maps store_r 0))\<rparr>)
      (case map_of (Macros deps_ex 0) ''bar'' of None \<Rightarrow> None | Some k \<Rightarrow> k) renderer_ex =
        Inl (Failure ''bad default'')"
    by (simp_all add: deps_ex_def)
  have m0: "maps store_r 0 = []" by (simp add: store_r_def)
  have f0: "frame store_r (Context (envs store_r (Environment renderer_ex))) = Some []"
    and f1: "frame (store_r\<lparr>maps := (maps store_r)(0 := [(''a'', IMacro 10)])\<rparr>)
       (Context (envs store_r (Environment renderer_ex))) = Some [(''a'', IMacro 10)]"
    by (simp_all add: frame_def store_r_def renderer_ex_def)
  from FromImportStmt_partial_binding [OF h1 h2 h3 h4 h5 h6 h7]
  have "FromImportStmt_Execute deps_ex store_r from_bad renderer_ex =
       Inr (store_r\<lparr>maps := (maps store_r)(0 := AList.update ''a'' (IMacro 10) (maps store_r 0))\<rparr>,
            Some (Wrapf (Failure ''bad default'') import_macro_format [AStr ''bar'']))"
    by (rule conjunct1)
  then have e: "FromImportStmt_Execute deps_ex store_r from_bad renderer_ex =
       Inr (store_r\<lparr>maps := (maps store_r)(0 := [(''a'', IMacro 10)])\<rparr>,
            Some (Wrapf (Failure ''bad default'') import_macro_format [AStr ''bar'']))"
    by (simp add: m0)
  from h4 have h4': "As from_bad = [(''a'', ''foo''), (''b'', ''bar'')]" by simp
  from h1 h2 h3 h4' h5 e f0 f1 show ?thesis by (intro conjI)
qed

lemma Import_Execute_success:
  assumes "ImportStmt_Execute d s stmt r = Inr (s', None)"
  shows "\<exists>l t macros.
          Loader_Inherit d (Loader r) (String (Eval d s r (filenameExpression stmt))) = Inr l
        \<and> NewTemplate d s (String (Eval d s r (filenameExpression stmt))) (Config r) l (Environment r) = Inr t
        \<and> dom (map_of macros) = fst ` set (Macros d t)
        \<and> (distinct (map fst (Macros d t)) \<longrightarrow>
             (\<forall>(name, node) \<in> set (Macros d t). \<exists>fn.
                 MacroNodeToFunc d s node r = Inr fn \<and> map_of macros name = Some fn))
        \<and> frame_only s s' (Context (envs s (Environment r)))
        \<and> index (frame s' (Context (envs s (Environment r)))) (as stmt) = Some (IMacros macros)
        \<and> (\<forall>x. x \<noteq> as stmt \<longrightarrow>
              index (frame s' (Context (envs s (Environment r)))) x =
              index (frame s (Context (envs s (Environment r)))) x)"
proof -
  let ?ctx = "Context (envs s (Environment r))"
  let ?f = "String (Eval d s r (filenameExpression stmt))"
  from Import_Execute_cases [OF assms]
  have "\<exists>l t macros. Loader_Inherit d (Loader r) ?f = Inr l
        \<and> NewTemplate d s ?f (Config r) l (Environment r) = Inr t
        \<and> ImportStmt_range d s r (Macros d t) [] = Inr macros
        \<and> Context_Set s ?ctx (as stmt) (IMacros macros) = Inr s'"
    by simp
  then obtain l t macros where
    l: "Loader_Inherit d (Loader r) ?f = Inr l"
    and t: "NewTemplate d s ?f (Config r) l (Environment r) = Inr t"
    and m: "ImportStmt_range d s r (Macros d t) [] = Inr macros"
    and set: "Context_Set s ?ctx (as stmt) (IMacros macros) = Inr s'"
    by (elim exE conjE)
  from Import_range_result [OF m] have
    D: "dom (map_of macros) = fst ` set (Macros d t)"
    and B: "distinct (map fst (Macros d t)) \<longrightarrow>
             (\<forall>(name, node) \<in> set (Macros d t). \<exists>fn.
                 MacroNodeToFunc d s node r = Inr fn \<and> map_of macros name = Some fn)"
    by simp_all
  have F: "frame_only s s' ?ctx" using set by (rule frame_only_Set)
  have I: "index (frame s' ?ctx) (as stmt) = Some (IMacros macros)"
    using Set_index [OF set, of "as stmt"] by simp
  have U: "\<forall>x. x \<noteq> as stmt \<longrightarrow> index (frame s' ?ctx) x = index (frame s ?ctx) x"
    using Set_index [OF set] by simp
  from l t D B F I U show ?thesis by (intro exI conjI)
qed

lemma From_Execute_success:
  assumes "FromImportStmt_Execute d s fstmt r = Inr (s'', None)"
  shows "\<exists>l t.
          Loader_Inherit d (Loader r) (String (Eval d s r (FilenameExpression fstmt))) = Inr l
        \<and> NewTemplate d s (String (Eval d s r (FilenameExpression fstmt))) (Config r) l (Environment r) = Inr t
        \<and> frame_only s s'' (Context (envs s (Environment r)))
        \<and> (\<forall>x. x \<notin> fst ` set (As fstmt) \<longrightarrow>
              index (frame s'' (Context (envs s (Environment r)))) x =
              index (frame s (Context (envs s (Environment r)))) x)
        \<and> (distinct (map fst (As fstmt)) \<longrightarrow>
             (\<forall>(alias, name) \<in> set (As fstmt). \<exists>fn s0.
                 frame_only s s0 (Context (envs s (Environment r)))
               \<and> MacroNodeToFunc d s0 (case map_of (Macros d t) name of None \<Rightarrow> None | Some k \<Rightarrow> k) r = Inr fn
               \<and> index (frame s'' (Context (envs s (Environment r)))) alias = Some (IMacro fn)))"
proof -
  let ?ctx = "Context (envs s (Environment r))"
  let ?f = "String (Eval d s r (FilenameExpression fstmt))"
  from From_Execute_cases [OF assms]
  have "\<exists>l t. Loader_Inherit d (Loader r) ?f = Inr l
        \<and> NewTemplate d s ?f (Config r) l (Environment r) = Inr t
        \<and> FromImportStmt_range d s r (Macros d t) (As fstmt) = Inr (s'', None)"
    by simp
  then obtain l t where
    l: "Loader_Inherit d (Loader r) ?f = Inr l"
    and t: "NewTemplate d s ?f (Config r) l (Environment r) = Inr t"
    and m: "FromImportStmt_range d s r (Macros d t) (As fstmt) = Inr (s'', None)"
    by (elim exE conjE)
  note R = From_range_success [OF m]
  from l t R show ?thesis by (intro exI conjI) (elim conjE, assumption)+
qed

text \<open>
  Claim C8. When \<open>ImportStmt.Execute\<close> returns no error, the local frame of the current
  context binds the alias to a table whose names are those of the macros of the loaded
  template, each with its wrapped macro, and every other name is bound as before. When
  \<open>FromImportStmt.Execute\<close> returns no error, every alias of the statement is bound to the
  wrapped macro of the name it stands for, and every name that is not an alias of the
  statement is bound as before: the original name of an aliased macro is bound only if
  the statement asks for it under its own name as well. Nothing but that local frame is
  written.
\<close>

theorem import_success_bindings:
  "(ImportStmt_Execute d s stmt r = Inr (s', None) \<longrightarrow>
      (\<exists>l t macros.
          Loader_Inherit d (Loader r) (String (Eval d s r (filenameExpression stmt))) = Inr l
        \<and> NewTemplate d s (String (Eval d s r (filenameExpression stmt))) (Config r) l (Environment r) = Inr t
        \<and> dom (map_of macros) = fst ` set (Macros d t)
        \<and> (distinct (map fst (Macros d t)) \<longrightarrow>
             (\<forall>(name, node) \<in> set (Macros d t). \<exists>fn.
                 MacroNodeToFunc d s node r = Inr fn \<and> map_of macros name = Some fn))
        \<and> frame_only s s' (Context (envs s (Environment r)))
        \<and> index (frame s' (Context (envs s (Environment r)))) (as stmt) = Some (IMacros macros)
        \<and> (\<forall>x. x \<noteq> as stmt \<longrightarrow>
              index (frame s' (Context (envs s (Environment r)))) x =
              index (frame s (Context (envs s (Environment r)))) x)))
 \<and> (FromImportStmt_Execute d s fstmt r = Inr (s'', None) \<longrightarrow>
      (\<exists>l t.
          Loader_Inherit d (Loader r) (String (Eval d s r (FilenameExpression fstmt))) = Inr l
        \<and> NewTemplate d s (String (Eval d s r (FilenameExpression fstmt))) (Config r) l (Environment r) = Inr t
        \<and> frame_only s s'' (Context (envs s (Environment r)))
        \<and> (\<forall>x. x \<notin> fst ` set (As fstmt) \<longrightarrow>
              index (frame s'' (Context (envs s (Environment r)))) x =
              index (frame s (Context (envs s (Environment r)))) x)
        \<and> (distinct (map fst (As fstmt)) \<longrightarrow>
             (\<forall>(alias, name) \<in> set (As fstmt). \<exists>fn s0.
                 frame_only s s0 (Context (envs s (Environment r)))
               \<and> MacroNodeToFunc d s0 (case map_of (Macros d t) name of None \<Rightarrow> None | Some k \<Rightarrow> k) r = Inr fn
               \<and> index (frame s'' (Context (envs s (Environment r)))) alias = Some (IMacro fn)))))"
  by (intro conjI impI) (erule Import_Execute_success, erule From_Execute_success)

theorem import_success_bindings_witness:
  "ImportStmt_Execute deps_ex store_r import_ok renderer_ex =
     Inr (store_r\<lparr>maps := (maps store_r)(0 := [(''L'', IMacros [(''foo'', 20), (''baz'', 21)])])\<rparr>, None)
 \<and> (\<exists>macros.
       index (frame (store_r\<lparr>maps := (maps store_r)(0 := [(''L'', IMacros [(''foo'', 20), (''baz'', 21)])])\<rparr>) 0)
         ''L'' = Some (IMacros macros)
     \<and> dom (map_of macros) = {''foo'', ''baz''})
 \<and> index (frame (store_r\<lparr>maps := (maps store_r)(0 := [(''L'', IMacros [(''foo'', 20), (''baz'', 21)])])\<rparr>) 0)
       ''foo'' = None
 \<and> FromImportStmt_Execute deps_ex store_r from_ok renderer_ex =
     Inr (store_r\<lparr>maps := (maps store_r)(0 := [(''bar'', IMacro 20)])\<rparr>, None)
 \<and> distinct (map fst (As from_ok))
 \<and> (\<exists>fn. index (frame (store_r\<lparr>maps := (maps store_r)(0 := [(''bar'', IMacro 20)])\<rparr>) 0) ''bar'' =
            Some (IMacro fn))
 \<and> index (frame (store_r\<lparr>maps := (maps store_r)(0 := [(''bar'', IMacro 20)])\<rparr>) 0) ''foo'' = None"
proof -
  let ?SL = "store_r\<lparr>maps := (maps store_r)(0 := [(''L'', IMacros [(''foo'', 20), (''baz'', 21)])])\<rparr>"
  let ?SB = "store_r\<lparr>maps := (maps store_r)(0 := [(''bar'', IMacro 20)])\<rparr>"
  have i: "ImportStmt_Execute deps_ex store_r import_ok renderer_ex = Inr (?SL, None)"
    by (simp add: ImportStmt_Execute_def deps_ex_def value_ex_def import_ok_def renderer_ex_def
        store_r_def Context_Set_def frame_assign_def)
  have f: "FromImportStmt_Execute deps_ex store_r from_ok renderer_ex = Inr (?SB, None)"
    by (simp add: FromImportStmt_Execute_def deps_ex_def value_ex_def from_ok_def renderer_ex_def
        store_r_def Context_Set_def frame_assign_def)
  have c: "Context (envs store_r (Environment renderer_ex)) = 0"
    and e: "index (frame store_r 0) ''foo'' = None"
    and a: "as import_ok = ''L''" and b: "As from_ok = [(''bar'', ''foo'')]"
    and dd: "distinct (map fst (As from_ok))"
    by (simp_all add: store_r_def renderer_ex_def frame_def index_def import_ok_def from_ok_def)
  note T = import_success_bindings [of deps_ex store_r import_ok renderer_ex ?SL from_ok ?SB]
  from mp [OF T [THEN conjunct1] i] obtain l t macros where
    t: "NewTemplate deps_ex store_r (String (Eval deps_ex store_r renderer_ex (filenameExpression import_ok)))
          (Config renderer_ex) l (Environment renderer_ex) = Inr t"
    and D: "dom (map_of macros) = fst ` set (Macros deps_ex t)"
    and I: "index (frame ?SL (Context (envs store_r (Environment renderer_ex)))) (as import_ok) =
              Some (IMacros macros)"
    and U: "\<forall>x. x \<noteq> as import_ok \<longrightarrow>
              index (frame ?SL (Context (envs store_r (Environment renderer_ex)))) x =
              index (frame store_r (Context (envs store_r (Environment renderer_ex)))) x"
    by (elim exE conjE)
  from t have "t = 1" by (simp add: deps_ex_def value_ex_def import_ok_def)
  with D have D': "dom (map_of macros) = {''foo'', ''baz''}" by (simp add: deps_ex_def)
  from I have I': "index (frame ?SL 0) ''L'' = Some (IMacros macros)" by (simp only: c a)
  from U e have U': "index (frame ?SL 0) ''foo'' = None" by (simp add: c a)
  from mp [OF T [THEN conjunct2] f] obtain l2 t2 where
    "Loader_Inherit deps_ex (Loader renderer_ex)
       (String (Eval deps_ex store_r renderer_ex (FilenameExpression from_ok))) = Inr l2"
    and U2: "\<forall>x. x \<notin> fst ` set (As from_ok) \<longrightarrow>
              index (frame ?SB (Context (envs store_r (Environment renderer_ex)))) x =
              index (frame store_r (Context (envs store_r (Environment renderer_ex)))) x"
    and B2: "distinct (map fst (As from_ok)) \<longrightarrow>
             (\<forall>(alias, name) \<in> set (As from_ok). \<exists>fn s0.
                 frame_only store_r s0 (Context (envs store_r (Environment renderer_ex)))
               \<and> MacroNodeToFunc deps_ex s0 (case map_of (Macros deps_ex t2) name of None \<Rightarrow> None | Some k \<Rightarrow> k) renderer_ex = Inr fn
               \<and> index (frame ?SB (Context (envs store_r (Environment renderer_ex)))) alias = Some (IMacro fn))"
    by (elim exE conjE)
  from U2 e have F2: "index (frame ?SB 0) ''foo'' = None" by (simp add: c b)
  from B2 dd have "\<exists>fn s0.
                 frame_only store_r s0 0
               \<and> MacroNodeToFunc deps_ex s0 (case map_of (Macros deps_ex t2) ''foo'' of None \<Rightarrow> None | Some k \<Rightarrow> k) renderer_ex = Inr fn
               \<and> index (frame ?SB 0) ''bar'' = Some (IMacro fn)"
    by (simp add: c b)
  then have B2': "\<exists>fn. index (frame ?SB 0) ''bar'' = Some (IMacro fn)" by blast
  from I' D' have L: "\<exists>macros. index (frame ?SL 0) ''L'' = Some (IMacros macros)
     \<and> dom (map_of macros) = {''foo'', ''baz''}" by blast
  from i L U' f dd B2' F2 show ?thesis by (intro conjI)
qed

end
